theory Spec2Isabelle
  imports Main
begin

section \<open>ReasonForge: response normalisation, history store and persistence\<close>

text \<open>
  The development embeds the controller logic of \<^verbatim>\<open>src/app/page.tsx\<close> (component
  \<^verbatim>\<open>ReasonForgeAI\<close>: the two storage effects and \<^verbatim>\<open>handleAnalyze\<close>) and of the alternate
  page \<^verbatim>\<open>src/unnamed/part_000\<close> (component \<^verbatim>\<open>ReasonForge\<close>: \<^verbatim>\<open>runAnalysis\<close>).

  Conventions.
  \<^item> A JavaScript string is a \<^typ>\<open>string\<close>, one \<^typ>\<open>char\<close> per code unit; the
    embedding covers the code units below 256.
  \<^item> A JavaScript value is a \<open>jsval\<close>; numbers are integers (the IEEE special values
    and fractions are not represented).
  \<^item> \<^verbatim>\<open>JSON.parse\<close>, \<^verbatim>\<open>JSON.stringify\<close>, the clock and the agent gateway belong to the
    platform, not to the repository: the embedded functions take them as parameters
    (\<open>JSON_parse\<close>, \<open>JSON_stringify\<close>, \<open>now\<close>, the gateway's reply), so every theorem
    quantified over them holds for the platform's own functions.
  \<^item> A thrown exception is the left injection of a sum, \<open>js_error + 'a\<close>.
\<close>

subsection \<open>Strings\<close>

definition starts_with :: "string \<Rightarrow> string \<Rightarrow> bool" where
  \<comment> \<open>\<^verbatim>\<open>s.startsWith(pat)\<close>\<close>
  "starts_with pat s = (take (length pat) s = pat)"

fun includes_str :: "string \<Rightarrow> string \<Rightarrow> bool" where
  \<comment> \<open>\<^verbatim>\<open>s.includes(pat)\<close>\<close>
  "includes_str [] pat = (pat = [])"
| "includes_str (c # cs) pat = (starts_with pat (c # cs) \<or> includes_str cs pat)"

definition is_ws :: "char \<Rightarrow> bool" where
  \<comment> \<open>WhiteSpace and LineTerminator of ECMAScript, below 256:
      TAB, LF, VT, FF, CR, SP, NBSP\<close>
  "is_ws c = (c \<in> {CHR 0x09, CHR 0x0A, CHR 0x0B, CHR 0x0C, CHR 0x0D, CHR 0x20, CHR 0xA0})"

definition trim :: "string \<Rightarrow> string" where
  \<comment> \<open>\<^verbatim>\<open>String.prototype.trim\<close>\<close>
  "trim s = rev (dropWhile is_ws (rev (dropWhile is_ws s)))"

text \<open>
  \<^verbatim>\<open>s.replace(/PAT\n?/g, '')\<close> for a literal, non-empty \<open>PAT\<close>: the string is scanned
  from the left; where \<open>PAT\<close> matches, it is deleted together with one following
  line feed (the optional \<^verbatim>\<open>\n\<close> is greedy) and the scan resumes behind the match;
  elsewhere the code unit is kept.
\<close>

function replace_all :: "string \<Rightarrow> string \<Rightarrow> string" where
  "replace_all pat s =
     (if pat \<noteq> [] \<and> starts_with pat s then
        (case drop (length pat) s of
           c # r \<Rightarrow> if c = CHR 0x0A then replace_all pat r else replace_all pat (c # r)
         | [] \<Rightarrow> [])
      else (case s of [] \<Rightarrow> [] | c # cs \<Rightarrow> c # replace_all pat cs))"
  by pat_completeness auto
termination
proof (relation "measure (\<lambda>(pat, s). length s)")
  show "wf (measure (\<lambda>(pat, s). length s))" by simp
next
  fix pat s :: string and c r
  assume "pat \<noteq> [] \<and> starts_with pat s" and d: "drop (length pat) s = c # r"
  then have "length (c # r) = length s - length pat" "length pat > 0"
    by (metis length_drop, simp)
  then show "((pat, r), (pat, s)) \<in> measure (\<lambda>(pat, s). length s)"
    by simp
next
  fix pat s :: string and c r
  assume "pat \<noteq> [] \<and> starts_with pat s" and d: "drop (length pat) s = c # r"
  then have "length (c # r) = length s - length pat" "length pat > 0"
    by (metis length_drop, simp)
  then show "((pat, c # r), (pat, s)) \<in> measure (\<lambda>(pat, s). length s)"
    by (cases s) auto
next
  fix pat s :: string and c cs
  assume "s = c # cs"
  then show "((pat, cs), (pat, s)) \<in> measure (\<lambda>(pat, s). length s)"
    by simp
qed

declare replace_all.simps [simp del]

definition clean_json :: "string \<Rightarrow> string" where
  \<comment> \<open>\<^verbatim>\<open>response.replace(/```json\n?/g, '').replace(/```\n?/g, '').trim()\<close>\<close>
  "clean_json response = trim (replace_all ''```'' (replace_all ''```json'' response))"

definition to_lower :: "char \<Rightarrow> char" where
  \<comment> \<open>\<^verbatim>\<open>toLowerCase\<close> on one code unit below 256: A-Z and the Latin-1 capitals\<close>
  "to_lower c =
     (let n = (of_char c :: nat) in
      if (65 \<le> n \<and> n \<le> 90) \<or> (192 \<le> n \<and> n \<le> 222 \<and> n \<noteq> 215)
      then char_of (n + 32) else c)"

definition to_upper :: "char \<Rightarrow> char" where
  \<comment> \<open>\<^verbatim>\<open>toUpperCase\<close> on an ASCII letter (it is applied to the first letter of a keyword)\<close>
  "to_upper c =
     (let n = (of_char c :: nat) in if 97 \<le> n \<and> n \<le> 122 then char_of (n - 32) else c)"

fun split_on :: "char \<Rightarrow> string \<Rightarrow> string list" where
  \<comment> \<open>\<^verbatim>\<open>s.split(sep)\<close> for a separator of one code unit\<close>
  "split_on sep [] = [[]]"
| "split_on sep (c # cs) =
     (if c = sep then [] # split_on sep cs
      else (case split_on sep cs of w # ws \<Rightarrow> (c # w) # ws | [] \<Rightarrow> [[c]]))"

function string_of_nat :: "nat \<Rightarrow> string" where
  "string_of_nat n =
     (if n < 10 then [char_of (48 + n)]
      else string_of_nat (n div 10) @ [char_of (48 + n mod 10)])"
  by pat_completeness auto
termination
  by (relation "measure (\<lambda>n. n)") auto

declare string_of_nat.simps [simp del]

definition string_of_int :: "int \<Rightarrow> string" where
  \<comment> \<open>\<^verbatim>\<open>n.toString()\<close> for an integer \<open>n\<close>\<close>
  "string_of_int i = (if i < 0 then CHR ''-'' # string_of_nat (nat (- i)) else string_of_nat (nat i))"

subsection \<open>JavaScript values and errors\<close>

datatype jsval =
    Undefined
  | Null
  | Bool bool
  | Num int
  | Str string
  | Arr "jsval list"
  | Obj "(string \<times> jsval) list"

datatype js_error =
    SyntaxError string   \<comment> \<open>\<open>SyntaxError t\<close> is what \<^verbatim>\<open>JSON.parse(t)\<close> throws on a text \<open>t\<close> it
                             refuses; its message is the engine's, made from \<open>t\<close> (it may
                             quote \<open>t\<close>, or a part of it)\<close>
  | TypeError            \<comment> \<open>thrown by a property read on \<^verbatim>\<open>null\<close> or \<^verbatim>\<open>undefined\<close>\<close>
  | Rejected string      \<comment> \<open>the reason of a rejected gateway promise\<close>

fun truthy :: "jsval \<Rightarrow> bool" where
  "truthy Undefined = False"
| "truthy Null = False"
| "truthy (Bool b) = b"
| "truthy (Num n) = (n \<noteq> 0)"
| "truthy (Str s) = (s \<noteq> [])"
| "truthy (Arr xs) = True"
| "truthy (Obj kvs) = True"

definition or_else :: "jsval \<Rightarrow> jsval \<Rightarrow> jsval" where
  \<comment> \<open>\<^verbatim>\<open>a || b\<close>\<close>
  "or_else a b = (if truthy a then a else b)"

fun get_prop :: "jsval \<Rightarrow> string \<Rightarrow> js_error + jsval" where
  \<comment> \<open>\<^verbatim>\<open>v.k\<close> for a data property \<open>k\<close> that no prototype defines\<close>
  "get_prop Undefined k = Inl TypeError"
| "get_prop Null k = Inl TypeError"
| "get_prop (Obj kvs) k = Inr (case map_of kvs k of Some v \<Rightarrow> v | None \<Rightarrow> Undefined)"
| "get_prop v k = Inr Undefined"

fun get_prop_opt :: "jsval \<Rightarrow> string \<Rightarrow> js_error + jsval" where
  \<comment> \<open>\<^verbatim>\<open>v?.k\<close>\<close>
  "get_prop_opt Undefined k = Inr Undefined"
| "get_prop_opt Null k = Inr Undefined"
| "get_prop_opt v k = get_prop v k"

subsection \<open>Response normalisation (\<^verbatim>\<open>handleAnalyze\<close>, the block under "Parse response")\<close>

definition parse_response :: "(string \<Rightarrow> jsval option) \<Rightarrow> jsval \<Rightarrow> js_error + jsval" where
  \<comment> \<open>\<open>JSON_parse t = None\<close> stands for \<^verbatim>\<open>JSON.parse(t)\<close> throwing its SyntaxError\<close>
  "parse_response JSON_parse response =
     (case response of
        Str s \<Rightarrow> (case JSON_parse (clean_json s) of
                     Some parsedResult \<Rightarrow> Inr parsedResult
                   | None \<Rightarrow> Inl (SyntaxError (clean_json s)))
      | _ \<Rightarrow> Inr response)"

definition read_confidence :: "jsval \<Rightarrow> js_error + jsval" where
  \<comment> \<open>\<^verbatim>\<open>parsedResult.uncertainty_assessment?.overall_confidence || 0\<close>\<close>
  "read_confidence parsedResult =
     (case get_prop parsedResult ''uncertainty_assessment'' of
        Inl e \<Rightarrow> Inl e
      | Inr ua \<Rightarrow> (case get_prop_opt ua ''overall_confidence'' of
                     Inl e \<Rightarrow> Inl e
                   | Inr oc \<Rightarrow> Inr (or_else oc (Num 0))))"

subsection \<open>The history records of \<^verbatim>\<open>page.tsx\<close>\<close>

datatype status = completed | in_progress | failed

record AnalysisItem =
  id' :: string
  problem :: string
  timestamp :: int
  confidence :: jsval
  status :: status
  result :: "jsval option"     \<comment> \<open>\<^verbatim>\<open>result?\<close>: \<open>None\<close> when the property is absent\<close>
  topic :: "string option"

text \<open>
  The two object literals that \<^verbatim>\<open>handleAnalyze\<close> spreads over a record,
  \<^verbatim>\<open>{ ...item, result: parsedResult, confidence, status: 'completed' }\<close> and
  \<^verbatim>\<open>{ ...item, status: 'failed' }\<close>, are patches: the properties to overwrite.
\<close>

record item_patch =
  patch_result :: "jsval option"
  patch_confidence :: "jsval option"
  patch_status :: "status option"

definition merge :: "item_patch \<Rightarrow> AnalysisItem \<Rightarrow> AnalysisItem" where
  \<comment> \<open>\<^verbatim>\<open>{ ...item, ...patch }\<close>\<close>
  "merge p item =
     item\<lparr> result := (case patch_result p of Some r \<Rightarrow> Some r | None \<Rightarrow> result item),
           confidence := (case patch_confidence p of Some c \<Rightarrow> c | None \<Rightarrow> confidence item),
           status := (case patch_status p of Some s \<Rightarrow> s | None \<Rightarrow> status item) \<rparr>"

definition append_record :: "AnalysisItem \<Rightarrow> AnalysisItem list \<Rightarrow> AnalysisItem list" where
  \<comment> \<open>\<^verbatim>\<open>prev => [newAnalysis, ...prev]\<close>\<close>
  "append_record newAnalysis prev = newAnalysis # prev"

definition updateById :: "string \<Rightarrow> item_patch \<Rightarrow> AnalysisItem list \<Rightarrow> AnalysisItem list" where
  \<comment> \<open>\<^verbatim>\<open>prev => prev.map(item => item.id === analysisId ? { ...item, ...patch } : item)\<close>\<close>
  "updateById analysisId p prev =
     map (\<lambda>item. if id' item = analysisId then merge p item else item) prev"

definition completed_patch :: "jsval \<Rightarrow> jsval \<Rightarrow> item_patch" where
  "completed_patch parsedResult conf =
     \<lparr> patch_result = Some parsedResult, patch_confidence = Some conf,
       patch_status = Some completed \<rparr>"

definition failed_patch :: item_patch where
  "failed_patch = \<lparr> patch_result = None, patch_confidence = None, patch_status = Some failed \<rparr>"

definition topic_keywords :: "string list" where
  \<comment> \<open>\<^verbatim>\<open>keywords\<close> of \<^verbatim>\<open>extractTopic\<close>\<close>
  "topic_keywords = [''employee'', ''student'', ''climate'', ''business'', ''health'',
               ''technology'', ''education'']"

definition extractTopic :: "string \<Rightarrow> string" where
  "extractTopic p =
     (let words = split_on CHR '' '' (map to_lower p) in
      case find (\<lambda>keyword. list_ex (\<lambda>w. includes_str w keyword) words) topic_keywords of
        Some keyword \<Rightarrow> map to_upper (take 1 keyword) @ drop 1 keyword
      | None \<Rightarrow> ''General'')"

subsection \<open>The page state and the device-local storage\<close>

text \<open>
  The component state that the modelled functions read or write, together with the
  environment they act on: the storage, and the logs of \<^verbatim>\<open>alert\<close>, \<^verbatim>\<open>console.error\<close> and
  gateway calls.
\<close>

record page_state =
  analysisHistory :: "AnalysisItem list"
  currentProblem :: string
  isAnalyzing :: bool
  currentAnalysis :: "jsval option"            \<comment> \<open>\<open>None\<close> is \<^verbatim>\<open>null\<close>\<close>
  localStorage :: "string \<rightharpoonup> string"
  alerts :: "string list"
  console_errors :: "(string \<times> js_error) list"
  gateway_calls :: "(string \<times> string) list"    \<comment> \<open>agent id and prompt\<close>

definition history_key :: string where
  "history_key = ''reasonforge_history''"

definition REASONING_ORCHESTRATOR_ID :: string where
  "REASONING_ORCHESTRATOR_ID = ''69858540b90162af337b1e2d''"

definition initial_state :: "(string \<rightharpoonup> string) \<Rightarrow> page_state" where
  \<comment> \<open>the \<^verbatim>\<open>useState\<close> initial values, on a device whose storage is \<open>store\<close>\<close>
  "initial_state store =
     \<lparr> analysisHistory = [], currentProblem = [], isAnalyzing = False,
       currentAnalysis = None, localStorage = store, alerts = [], console_errors = [],
       gateway_calls = [] \<rparr>"

definition save_effect :: "(AnalysisItem list \<Rightarrow> string) \<Rightarrow> page_state \<Rightarrow> page_state" where
  \<comment> \<open>the effect on \<^verbatim>\<open>[analysisHistory]\<close>\<close>
  "save_effect JSON_stringify st =
     (if length (analysisHistory st) > 0
      then st\<lparr> localStorage :=
                 (localStorage st)(history_key \<mapsto> JSON_stringify (analysisHistory st)) \<rparr>
      else st)"

definition setAnalysisHistory ::
  "(AnalysisItem list \<Rightarrow> string) \<Rightarrow> (AnalysisItem list \<Rightarrow> AnalysisItem list) \<Rightarrow>
   page_state \<Rightarrow> page_state" where
  \<comment> \<open>a state update of the history, followed by the effect that depends on it\<close>
  "setAnalysisHistory JSON_stringify f st =
     save_effect JSON_stringify (st\<lparr> analysisHistory := f (analysisHistory st) \<rparr>)"

text \<open>
  The state \<^verbatim>\<open>analysisHistory\<close> has the type \<^verbatim>\<open>AnalysisItem[]\<close>, and the load effect
  passes \<^verbatim>\<open>JSON.parse(saved)\<close> to it unchecked.  The embedding follows the types: the
  parser of the load effect answers a list of records, and \<open>None\<close> where \<^verbatim>\<open>JSON.parse\<close>
  throws.  A stored text that is JSON of another shape is outside the types, and
  outside the embedding.
\<close>

definition load_effect ::
  "(string \<Rightarrow> AnalysisItem list option) \<Rightarrow> page_state \<Rightarrow>
   js_error + (page_state \<times> AnalysisItem list option)" where
  \<comment> \<open>the mount effect.  It returns the state after the effect and the history it has
      passed to \<^verbatim>\<open>setAnalysisHistory\<close>, if any; \<open>Inl\<close> would be an exception leaving the
      effect.\<close>
  "load_effect JSON_parse st =
     (case localStorage st history_key of
        None \<Rightarrow> Inr (st, None)
      | Some saved \<Rightarrow>
          if saved = [] then Inr (st, None)
          else (case JSON_parse saved of
                  Some parsed \<Rightarrow> Inr (st, Some parsed)
                | None \<Rightarrow>
                    Inr (st\<lparr> console_errors :=
                               console_errors st @ [(''Failed to load history:'', SyntaxError saved)] \<rparr>,
                         None)))"

definition startup ::
  "(string \<Rightarrow> AnalysisItem list option) \<Rightarrow> (AnalysisItem list \<Rightarrow> string) \<Rightarrow>
   (string \<rightharpoonup> string) \<Rightarrow> js_error + page_state" where
  \<comment> \<open>mounting the page on a device whose storage is \<open>store\<close>: the first render has the
      empty history; the two effects run in the order of their declaration, the save
      effect on the empty history; the history that the load effect has set, if any,
      becomes the state of the next render, and the save effect runs on it.\<close>
  "startup JSON_parse JSON_stringify store =
     (case load_effect JSON_parse (initial_state store) of
        Inl e \<Rightarrow> Inl e
      | Inr (st1, requested) \<Rightarrow>
          (let st2 = save_effect JSON_stringify st1 in
           case requested of
             None \<Rightarrow> Inr st2
           | Some parsed \<Rightarrow> Inr (setAnalysisHistory JSON_stringify (\<lambda>prev. parsed) st2)))"

subsection \<open>\<^verbatim>\<open>handleAnalyze\<close>\<close>

datatype gateway_reply =
    Rejects js_error     \<comment> \<open>the awaited promise rejects\<close>
  | Resolves jsval       \<comment> \<open>the awaited promise resolves, to a string or to anything else\<close>

definition too_short :: "string \<Rightarrow> bool" where
  \<comment> \<open>\<^verbatim>\<open>!currentProblem.trim() || currentProblem.length < 10\<close>\<close>
  "too_short p = (trim p = [] \<or> length p < 10)"

definition newAnalysis :: "int \<Rightarrow> int \<Rightarrow> string \<Rightarrow> AnalysisItem" where
  \<comment> \<open>the record literal of \<^verbatim>\<open>handleAnalyze\<close>; \<open>now1\<close> and \<open>now2\<close> are its two readings of
      \<^verbatim>\<open>Date.now()\<close>\<close>
  "newAnalysis now1 now2 p =
     \<lparr> id' = string_of_int now1, problem = p, timestamp = now2, confidence = Num 0,
       status = in_progress, result = None, topic = Some (extractTopic p) \<rparr>"

definition submit :: "(AnalysisItem list \<Rightarrow> string) \<Rightarrow> int \<Rightarrow> int \<Rightarrow> page_state \<Rightarrow> page_state" where
  \<comment> \<open>from behind the length gate to the \<^verbatim>\<open>await\<close>\<close>
  "submit JSON_stringify now1 now2 st =
     (let st1 = setAnalysisHistory JSON_stringify
                  (append_record (newAnalysis now1 now2 (currentProblem st)))
                  (st\<lparr> isAnalyzing := True, currentAnalysis := None \<rparr>)
      in st1\<lparr> gateway_calls :=
                gateway_calls st1 @ [(REASONING_ORCHESTRATOR_ID, currentProblem st)] \<rparr>)"

definition try_block ::
  "(string \<Rightarrow> jsval option) \<Rightarrow> gateway_reply \<Rightarrow> js_error + (jsval \<times> jsval)" where
  \<comment> \<open>the expressions of the \<^verbatim>\<open>try\<close> block that can throw; its state updates follow the
      last of them\<close>
  "try_block JSON_parse reply =
     (case reply of
        Rejects e \<Rightarrow> Inl e
      | Resolves response \<Rightarrow>
          (case parse_response JSON_parse response of
             Inl e \<Rightarrow> Inl e
           | Inr parsedResult \<Rightarrow>
               (case read_confidence parsedResult of
                  Inl e \<Rightarrow> Inl e
                | Inr conf \<Rightarrow> Inr (parsedResult, conf))))"

definition settle ::
  "(string \<Rightarrow> jsval option) \<Rightarrow> (AnalysisItem list \<Rightarrow> string) \<Rightarrow> string \<Rightarrow> gateway_reply \<Rightarrow>
   page_state \<Rightarrow> js_error + page_state" where
  \<comment> \<open>from the \<^verbatim>\<open>await\<close> to the end: \<^verbatim>\<open>try\<close>, \<^verbatim>\<open>catch\<close>, \<^verbatim>\<open>finally\<close>.  \<open>Inl\<close> would be an
      exception leaving \<^verbatim>\<open>handleAnalyze\<close>.\<close>
  "settle JSON_parse JSON_stringify analysisId reply st =
     (case try_block JSON_parse reply of
        Inr (parsedResult, conf) \<Rightarrow>
          Inr ((setAnalysisHistory JSON_stringify
                  (updateById analysisId (completed_patch parsedResult conf))
                  (st\<lparr> currentAnalysis := Some parsedResult \<rparr>))
               \<lparr> isAnalyzing := False \<rparr>)
      | Inl error \<Rightarrow>
          (let st1 = setAnalysisHistory JSON_stringify (updateById analysisId failed_patch)
                       (st\<lparr> console_errors :=
                              console_errors st @ [(''Analysis failed:'', error)] \<rparr>);
               st2 = st1\<lparr> alerts := alerts st1 @ [''Analysis failed. Please try again.''] \<rparr>
           in Inr (st2\<lparr> isAnalyzing := False \<rparr>)))"

definition handleAnalyze ::
  "(string \<Rightarrow> jsval option) \<Rightarrow> (AnalysisItem list \<Rightarrow> string) \<Rightarrow> int \<Rightarrow> int \<Rightarrow> gateway_reply \<Rightarrow>
   page_state \<Rightarrow> js_error + page_state" where
  "handleAnalyze JSON_parse JSON_stringify now1 now2 reply st =
     (if too_short (currentProblem st)
      then Inr (st\<lparr> alerts :=
                  alerts st @ [''Please enter a problem statement (minimum 10 characters)''] \<rparr>)
      else settle JSON_parse JSON_stringify (string_of_int now1) reply
             (submit JSON_stringify now1 now2 st))"

subsection \<open>The alternate page \<^verbatim>\<open>part_000\<close>: \<^verbatim>\<open>runAnalysis\<close>\<close>

record AnalysisHistory =
  h_id :: string
  h_problem :: string
  h_date :: string
  h_confidence :: jsval
  h_status :: status                   \<comment> \<open>\<open>in_progress\<close> is spelt \<^verbatim>\<open>'in-progress'\<close> here\<close>
  causalAnalysis :: "jsval option"
  validation :: "jsval option"
  uncertainty :: "jsval option"

record forge_state =
  history :: "AnalysisHistory list"
  forge_currentAnalysis :: "AnalysisHistory option"
  problemInput :: string
  forge_isAnalyzing :: bool
  analysisStep :: string
  forge_localStorage :: "string \<rightharpoonup> string"
  forge_console_errors :: "(string \<times> js_error) list"
  forge_gateway_calls :: "(string \<times> string) list"   \<comment> \<open>message and agent id\<close>

datatype agent_reply =
    Throws js_error
  | Returns bool jsval      \<comment> \<open>\<^verbatim>\<open>{ success, response }\<close>\<close>

definition forge_save_effect :: "(AnalysisHistory list \<Rightarrow> string) \<Rightarrow> forge_state \<Rightarrow> forge_state" where
  "forge_save_effect JSON_stringify st =
     st\<lparr> forge_localStorage :=
           (forge_localStorage st)(''reasonforge-history'' \<mapsto> JSON_stringify (history st)) \<rparr>"

definition parseAgentResponse ::
  "jsval \<Rightarrow> forge_state \<Rightarrow> jsval \<times> forge_state" where
  "parseAgentResponse response st =
     (case get_prop response ''result'' of
        Inr r \<Rightarrow> (if truthy r then r else Null, st)
      | Inl e \<Rightarrow> (Null, st\<lparr> forge_console_errors :=
                             forge_console_errors st @ [(''Failed to parse agent response:'', e)] \<rparr>))"

definition callAIAgent ::
  "string \<Rightarrow> string \<Rightarrow> agent_reply \<Rightarrow> forge_state \<Rightarrow> (js_error + bool \<times> jsval) \<times> forge_state" where
  \<comment> \<open>\<^verbatim>\<open>await callAIAgent(message, agentId)\<close>, the gateway answering \<open>reply\<close>\<close>
  "callAIAgent message agent_id reply st =
     (let st1 = st\<lparr> forge_gateway_calls := forge_gateway_calls st @ [(message, agent_id)] \<rparr> in
      case reply of
        Throws e \<Rightarrow> (Inl e, st1)
      | Returns success response \<Rightarrow> (Inr (success, response), st1))"

definition AGENT_IDS_causalAnalysis :: string where
  "AGENT_IDS_causalAnalysis = ''698584ddc613a65b3c4193c4''"

definition AGENT_IDS_commonSenseValidator :: string where
  "AGENT_IDS_commonSenseValidator = ''698584fc49f279d47448a5b9''"

definition AGENT_IDS_uncertaintyQuantifier :: string where
  "AGENT_IDS_uncertaintyQuantifier = ''69858517ab4bf65a66ad0765''"

text \<open>
  The \<^verbatim>\<open>try\<close> block of \<^verbatim>\<open>runAnalysis\<close> up to \<^verbatim>\<open>newAnalysis.status = 'completed'\<close>, one
  definition for each of its three steps.  A step answers the exception thrown, if
  any, the record \<^verbatim>\<open>newAnalysis\<close> as mutated so far, and the state.
\<close>

definition uncertainty_step ::
  "agent_reply \<Rightarrow> AnalysisHistory \<Rightarrow> forge_state \<Rightarrow>
   js_error option \<times> AnalysisHistory \<times> forge_state" where
  \<comment> \<open>Step 3: Uncertainty Quantification\<close>
  "uncertainty_step r3 a s =
     (case callAIAgent (''Quantify the uncertainty in this analysis: '' @ problemInput s)
             AGENT_IDS_uncertaintyQuantifier r3
             (s\<lparr> analysisStep := ''Quantifying uncertainty...'' \<rparr>) of
        (Inl e, s3) \<Rightarrow> (Some e, a, s3)
      | (Inr (success, response), s3) \<Rightarrow>
          if success
          then (let (uncertaintyData, s4) = parseAgentResponse response s3;
                    a3 = a\<lparr> uncertainty := Some uncertaintyData \<rparr>
                in case get_prop uncertaintyData ''overall_confidence'' of
                     Inl e \<Rightarrow> (Some e, a3, s4)
                   | Inr oc \<Rightarrow> (None, a3\<lparr> h_confidence := or_else oc (Num 0) \<rparr>, s4))
          else (None, a, s3))"

definition validation_step ::
  "agent_reply \<Rightarrow> agent_reply \<Rightarrow> AnalysisHistory \<Rightarrow> forge_state \<Rightarrow>
   js_error option \<times> AnalysisHistory \<times> forge_state" where
  \<comment> \<open>Step 2: Common Sense Validation, and on to step 3\<close>
  "validation_step r2 r3 a s =
     (case callAIAgent (''Validate the reasoning in this problem: '' @ problemInput s)
             AGENT_IDS_commonSenseValidator r2
             (s\<lparr> analysisStep := ''Validating logical consistency...'' \<rparr>) of
        (Inl e, s2) \<Rightarrow> (Some e, a, s2)
      | (Inr (success, response), s2) \<Rightarrow>
          if success
          then (let (validationData, s3) = parseAgentResponse response s2
                in uncertainty_step r3 (a\<lparr> validation := Some validationData \<rparr>) s3)
          else uncertainty_step r3 a s2)"

definition causal_step ::
  "agent_reply \<Rightarrow> agent_reply \<Rightarrow> agent_reply \<Rightarrow> AnalysisHistory \<Rightarrow> forge_state \<Rightarrow>
   js_error option \<times> AnalysisHistory \<times> forge_state" where
  \<comment> \<open>Step 1: Causal Analysis, and on to step 2\<close>
  "causal_step r1 r2 r3 a s =
     (case callAIAgent (''Analyze the causal relationships in this problem: '' @ problemInput s)
             AGENT_IDS_causalAnalysis r1
             (s\<lparr> analysisStep := ''Analyzing causal relationships...'' \<rparr>) of
        (Inl e, s1) \<Rightarrow> (Some e, a, s1)
      | (Inr (success, response), s1) \<Rightarrow>
          if success
          then (let (causalData, s2) = parseAgentResponse response s1
                in validation_step r2 r3 (a\<lparr> causalAnalysis := Some causalData \<rparr>) s2)
          else validation_step r2 r3 a s1)"

definition runAnalysis ::
  "(AnalysisHistory list \<Rightarrow> string) \<Rightarrow> int \<Rightarrow> string \<Rightarrow> agent_reply \<Rightarrow> agent_reply \<Rightarrow> agent_reply \<Rightarrow>
   forge_state \<Rightarrow> js_error + forge_state" where
  \<comment> \<open>\<open>now\<close> is \<^verbatim>\<open>Date.now()\<close>, \<open>iso_date\<close> is \<^verbatim>\<open>new Date().toISOString()\<close>; \<open>r1\<close>, \<open>r2\<close>, \<open>r3\<close> are
      the gateway's answers to the three calls, as far as they are made\<close>
  "runAnalysis JSON_stringify now iso_date r1 r2 r3 st =
     (if trim (problemInput st) = [] then Inr st
      else
        (let st0 = st\<lparr> forge_isAnalyzing := True \<rparr>;
             newAnalysis =
               \<lparr> h_id = string_of_int now, h_problem = problemInput st, h_date = iso_date,
                 h_confidence = Num 0, h_status = in_progress, causalAnalysis = None,
                 validation = None, uncertainty = None \<rparr>;
             (thrown, a, s) = causal_step r1 r2 r3 newAnalysis st0;
             s' = (case thrown of
                     None \<Rightarrow>
                       (let a' = a\<lparr> h_status := completed \<rparr> in
                        forge_save_effect JSON_stringify
                          (s\<lparr> forge_currentAnalysis := Some a', history := a' # history s \<rparr>))
                   | Some error \<Rightarrow>
                       s\<lparr> forge_console_errors :=
                            forge_console_errors s @ [(''Analysis failed:'', error)],
                          forge_currentAnalysis := Some (a\<lparr> h_status := failed \<rparr>) \<rparr>)
         in Inr (s'\<lparr> forge_isAnalyzing := False, analysisStep := [] \<rparr>)))"

subsection \<open>A reference JSON codec\<close>

text \<open>
  The theorems below that quantify over \<open>JSON_parse\<close> and \<open>JSON_stringify\<close> need no codec.
  The closed instances and the round trip of claim C3 need one: \<open>json_parse\<close> reads the JSON grammar (objects, arrays,
  strings with escapes, integer literals, \<^verbatim>\<open>true\<close>, \<^verbatim>\<open>false\<close>, \<^verbatim>\<open>null\<close>, the four JSON white
  space characters) and \<open>json_stringify\<close> writes it as \<^verbatim>\<open>JSON.stringify\<close> does.  Number
  literals with a fraction or an exponent and \<^verbatim>\<open>\u\<close> escapes above \<^verbatim>\<open>00ff\<close> have no
  representation in \<open>jsval\<close>; \<open>json_parse\<close> answers \<open>None\<close> on them, and no instance below
  contains one.
\<close>

definition is_json_ws :: "char \<Rightarrow> bool" where
  "is_json_ws c = (c \<in> {CHR 0x20, CHR 0x09, CHR 0x0A, CHR 0x0D})"

definition skip_ws :: "string \<Rightarrow> string" where
  "skip_ws s = dropWhile is_json_ws s"

definition is_digit :: "char \<Rightarrow> bool" where
  "is_digit c = (48 \<le> (of_char c :: nat) \<and> (of_char c :: nat) \<le> 57)"

definition hex_val :: "char \<Rightarrow> nat option" where
  "hex_val c =
     (let n = (of_char c :: nat) in
      if 48 \<le> n \<and> n \<le> 57 then Some (n - 48)
      else if 97 \<le> n \<and> n \<le> 102 then Some (n - 87)
      else if 65 \<le> n \<and> n \<le> 70 then Some (n - 55)
      else None)"

definition hex4 :: "char \<Rightarrow> char \<Rightarrow> char \<Rightarrow> char \<Rightarrow> nat option" where
  "hex4 a b c d =
     (case (hex_val a, hex_val b, hex_val c, hex_val d) of
        (Some w, Some x, Some y, Some z) \<Rightarrow> Some (((w * 16 + x) * 16 + y) * 16 + z)
      | _ \<Rightarrow> None)"

definition unescape :: "char \<Rightarrow> char option" where
  "unescape e =
     (if e = CHR 0x22 then Some (CHR 0x22)
      else if e = CHR 0x5C then Some (CHR 0x5C)
      else if e = CHR ''/'' then Some (CHR ''/'')
      else if e = CHR ''b'' then Some (CHR 0x08)
      else if e = CHR ''f'' then Some (CHR 0x0C)
      else if e = CHR ''n'' then Some (CHR 0x0A)
      else if e = CHR ''r'' then Some (CHR 0x0D)
      else if e = CHR ''t'' then Some (CHR 0x09)
      else None)"

fun parse_chars :: "string \<Rightarrow> (string \<times> string) option" where
  \<comment> \<open>the characters of a string literal behind its opening quote, and the rest\<close>
  "parse_chars [] = None"
| "parse_chars (c # cs) =
     (if c = CHR 0x22 then Some ([], cs)
      else if c = CHR 0x5C then
        (case cs of
           [] \<Rightarrow> None
         | e # r \<Rightarrow>
             if e = CHR ''u'' then
               (case r of
                  h1 # h2 # h3 # h4 # r' \<Rightarrow>
                    (case hex4 h1 h2 h3 h4 of
                       Some n \<Rightarrow>
                         if n < 256
                         then map_option (\<lambda>(s, t). (char_of n # s, t)) (parse_chars r')
                         else None
                     | None \<Rightarrow> None)
                | _ \<Rightarrow> None)
             else (case unescape e of
                     Some ch \<Rightarrow> map_option (\<lambda>(s, t). (ch # s, t)) (parse_chars r)
                   | None \<Rightarrow> None))
      else if (of_char c :: nat) < 32 then None
      else map_option (\<lambda>(s, t). (c # s, t)) (parse_chars cs))"

definition digits_val :: "string \<Rightarrow> nat" where
  "digits_val ds = foldl (\<lambda>acc d. acc * 10 + (of_char d - 48)) 0 ds"

definition parse_number :: "string \<Rightarrow> (jsval \<times> string) option" where
  "parse_number s =
     (let (neg, body) = (case s of c # cs \<Rightarrow> if c = CHR ''-'' then (True, cs) else (False, s)
                                 | [] \<Rightarrow> (False, s));
          ds = takeWhile is_digit body;
          r = dropWhile is_digit body
      in if ds = [] \<or> (length ds > 1 \<and> hd ds = CHR ''0'') then None
         else if r \<noteq> [] \<and> hd r \<in> {CHR ''.'', CHR ''e'', CHR ''E''} then None
         else Some (Num (if neg then - int (digits_val ds) else int (digits_val ds)), r))"

fun obj_set :: "string \<Rightarrow> jsval \<Rightarrow> (string \<times> jsval) list \<Rightarrow> (string \<times> jsval) list" where
  \<comment> \<open>defining a property: a known key keeps its place\<close>
  "obj_set k v [] = [(k, v)]"
| "obj_set k v ((k', v') # kvs) =
     (if k' = k then (k, v) # kvs else (k', v') # obj_set k v kvs)"

fun parse_value :: "nat \<Rightarrow> string \<Rightarrow> (jsval \<times> string) option"
and parse_elements :: "nat \<Rightarrow> jsval list \<Rightarrow> string \<Rightarrow> (jsval \<times> string) option"
and parse_members :: "nat \<Rightarrow> (string \<times> jsval) list \<Rightarrow> string \<Rightarrow> (jsval \<times> string) option" where
  "parse_value 0 s = None"
| "parse_value (Suc n) s =
     (case skip_ws s of
        [] \<Rightarrow> None
      | c # cs \<Rightarrow>
          if c = CHR ''{'' then
            (case skip_ws cs of
               [] \<Rightarrow> None
             | d # r \<Rightarrow> if d = CHR ''}'' then Some (Obj [], r) else parse_members n [] cs)
          else if c = CHR ''['' then
            (case skip_ws cs of
               [] \<Rightarrow> None
             | d # r \<Rightarrow> if d = CHR '']'' then Some (Arr [], r) else parse_elements n [] cs)
          else if c = CHR 0x22 then map_option (\<lambda>(s, r). (Str s, r)) (parse_chars cs)
          else if starts_with ''true'' (c # cs) then Some (Bool True, drop 4 (c # cs))
          else if starts_with ''false'' (c # cs) then Some (Bool False, drop 5 (c # cs))
          else if starts_with ''null'' (c # cs) then Some (Null, drop 4 (c # cs))
          else parse_number (c # cs))"
| "parse_elements 0 acc s = None"
| "parse_elements (Suc n) acc s =
     (case parse_value n s of
        None \<Rightarrow> None
      | Some (v, r) \<Rightarrow>
          (case skip_ws r of
             [] \<Rightarrow> None
           | d # r' \<Rightarrow>
               if d = CHR '','' then parse_elements n (acc @ [v]) r'
               else if d = CHR '']'' then Some (Arr (acc @ [v]), r')
               else None))"
| "parse_members 0 acc s = None"
| "parse_members (Suc n) acc s =
     (case skip_ws s of
        [] \<Rightarrow> None
      | q # r \<Rightarrow>
          if q \<noteq> CHR 0x22 then None
          else (case parse_chars r of
                  None \<Rightarrow> None
                | Some (k, r1) \<Rightarrow>
                    (case skip_ws r1 of
                       [] \<Rightarrow> None
                     | col # r2 \<Rightarrow>
                         if col \<noteq> CHR '':'' then None
                         else (case parse_value n r2 of
                                 None \<Rightarrow> None
                               | Some (v, r3) \<Rightarrow>
                                   (case skip_ws r3 of
                                      [] \<Rightarrow> None
                                    | d # r4 \<Rightarrow>
                                        if d = CHR '','' then parse_members n (obj_set k v acc) r4
                                        else if d = CHR ''}'' then Some (Obj (obj_set k v acc), r4)
                                        else None)))))"

definition json_parse :: "string \<Rightarrow> jsval option" where
  \<comment> \<open>the fuel exceeds the number of characters, and each nested call reads one\<close>
  "json_parse s =
     (case parse_value (Suc (length s)) s of
        Some (v, r) \<Rightarrow> if skip_ws r = [] then Some v else None
      | None \<Rightarrow> None)"

definition hex_digit :: "nat \<Rightarrow> char" where
  "hex_digit n = (if n < 10 then char_of (48 + n) else char_of (87 + n))"

definition quote_char :: "char \<Rightarrow> string" where
  "quote_char c =
     (if c = CHR 0x22 then [CHR 0x5C, CHR 0x22]
      else if c = CHR 0x5C then [CHR 0x5C, CHR 0x5C]
      else if c = CHR 0x08 then [CHR 0x5C, CHR ''b'']
      else if c = CHR 0x0C then [CHR 0x5C, CHR ''f'']
      else if c = CHR 0x0A then [CHR 0x5C, CHR ''n'']
      else if c = CHR 0x0D then [CHR 0x5C, CHR ''r'']
      else if c = CHR 0x09 then [CHR 0x5C, CHR ''t'']
      else if (of_char c :: nat) < 32
      then [CHR 0x5C, CHR ''u'', CHR ''0'', CHR ''0'',
            hex_digit (of_char c div 16), hex_digit (of_char c mod 16)]
      else [c])"

definition quote :: "string \<Rightarrow> string" where
  "quote s = CHR 0x22 # concat (map quote_char s) @ [CHR 0x22]"

fun join :: "string \<Rightarrow> string list \<Rightarrow> string" where
  "join sep [] = []"
| "join sep [x] = x"
| "join sep (x # y # ys) = x @ sep @ join sep (y # ys)"

fun json_stringify :: "jsval \<Rightarrow> string" where
  \<comment> \<open>\<^verbatim>\<open>JSON.stringify\<close> below the top level: \<^verbatim>\<open>undefined\<close> is \<^verbatim>\<open>null\<close> in an array and
      leaves a property out of an object\<close>
  "json_stringify Undefined = ''null''"
| "json_stringify Null = ''null''"
| "json_stringify (Bool b) = (if b then ''true'' else ''false'')"
| "json_stringify (Num n) = string_of_int n"
| "json_stringify (Str s) = quote s"
| "json_stringify (Arr xs) = ''['' @ join '','' (map json_stringify xs) @ '']''"
| "json_stringify (Obj kvs) =
     ''{'' @ join '',''
              (map (\<lambda>kv. quote (fst kv) @ '':'' @ json_stringify (snd kv))
                 (filter (\<lambda>kv. snd kv \<noteq> Undefined) kvs)) @ ''}''"

text \<open>
  The records of the history as the objects they are at run time, and back.  The
  reading \<open>item_of_json\<close> is defined on the objects that have the shape of the
  TypeScript interface.
\<close>

definition status_name :: "status \<Rightarrow> string" where
  "status_name s =
     (case s of completed \<Rightarrow> ''completed'' | in_progress \<Rightarrow> ''in_progress''
              | failed \<Rightarrow> ''failed'')"

definition status_of_name :: "string \<Rightarrow> status option" where
  "status_of_name s =
     (if s = ''completed'' then Some completed
      else if s = ''in_progress'' then Some in_progress
      else if s = ''failed'' then Some failed
      else None)"

definition json_of_item :: "AnalysisItem \<Rightarrow> jsval" where
  "json_of_item item =
     Obj ([(''id'', Str (id' item)), (''problem'', Str (problem item)),
           (''timestamp'', Num (timestamp item)), (''confidence'', confidence item),
           (''status'', Str (status_name (status item)))]
          @ (case topic item of Some t \<Rightarrow> [(''topic'', Str t)] | None \<Rightarrow> [])
          @ (case result item of Some r \<Rightarrow> [(''result'', r)] | None \<Rightarrow> []))"

definition item_of_json :: "jsval \<Rightarrow> AnalysisItem option" where
  "item_of_json v =
     (case v of
        Obj kvs \<Rightarrow>
          (case (map_of kvs ''id'', map_of kvs ''problem'', map_of kvs ''timestamp'',
                 map_of kvs ''confidence'', map_of kvs ''status'') of
             (Some (Str i), Some (Str p), Some (Num t), Some c, Some (Str s)) \<Rightarrow>
               (case (status_of_name s, map_of kvs ''topic'') of
                  (Some st, None) \<Rightarrow>
                    Some \<lparr> id' = i, problem = p, timestamp = t, confidence = c, status = st,
                           result = map_of kvs ''result'', topic = None \<rparr>
                | (Some st, Some (Str tp)) \<Rightarrow>
                    Some \<lparr> id' = i, problem = p, timestamp = t, confidence = c, status = st,
                           result = map_of kvs ''result'', topic = Some tp \<rparr>
                | _ \<Rightarrow> None)
           | _ \<Rightarrow> None)
      | _ \<Rightarrow> None)"

fun those_items :: "jsval list \<Rightarrow> AnalysisItem list option" where
  "those_items [] = Some []"
| "those_items (v # vs) =
     (case item_of_json v of
        None \<Rightarrow> None
      | Some item \<Rightarrow> map_option (\<lambda>items. item # items) (those_items vs))"

definition history_stringify :: "AnalysisItem list \<Rightarrow> string" where
  \<comment> \<open>\<^verbatim>\<open>JSON.stringify(analysisHistory)\<close>\<close>
  "history_stringify h = json_stringify (Arr (map json_of_item h))"

definition history_parse :: "string \<Rightarrow> AnalysisItem list option" where
  \<comment> \<open>\<^verbatim>\<open>JSON.parse(saved)\<close>, read as \<^verbatim>\<open>AnalysisItem[]\<close>\<close>
  "history_parse s =
     (case json_parse s of Some (Arr vs) \<Rightarrow> those_items vs | _ \<Rightarrow> None)"

text \<open>
  The values that a JSON text denotes: no \<^verbatim>\<open>undefined\<close> anywhere, and the keys of an object
  distinct.  A record is well formed when its confidence and its result, if it has
  one, are such values.  On these, the reference codec reads back what it writes
  (\<open>json_parse_stringify\<close>, \<open>history_parse_stringify\<close> below).
\<close>

fun json_value :: "jsval \<Rightarrow> bool" where
  "json_value Undefined = False"
| "json_value (Arr xs) = list_all json_value xs"
| "json_value (Obj kvs) = (distinct (map fst kvs) \<and> list_all (\<lambda>kv. json_value (snd kv)) kvs)"
| "json_value v = True"

definition well_formed :: "AnalysisItem \<Rightarrow> bool" where
  "well_formed item =
     (json_value (confidence item)
      \<and> (case result item of None \<Rightarrow> True | Some r \<Rightarrow> json_value r))"

text \<open>Notions for the proofs about the reference codec.\<close>

definition delimits :: "string \<Rightarrow> bool" where
  \<comment> \<open>what may follow a value inside an array or an object, or the end of the text\<close>
  "delimits rest = (rest = [] \<or> hd rest \<in> {CHR '','', CHR '']'', CHR ''}''})"

definition value_start :: "char \<Rightarrow> bool" where
  \<comment> \<open>the first character of a serialised value\<close>
  "value_start c = (c \<in> {CHR ''n'', CHR ''t'', CHR ''f'', CHR ''-'', CHR 0x22, CHR ''['', CHR ''{''}
                    \<or> is_digit c)"

definition member_text :: "string \<times> jsval \<Rightarrow> string" where
  \<comment> \<open>a property as \<open>json_stringify\<close> writes it\<close>
  "member_text kv = quote (fst kv) @ '':'' @ json_stringify (snd kv)"





subsection \<open>Fenced responses, reachable states, and the instances used below\<close>

definition fenced :: "string \<Rightarrow> string \<Rightarrow> string" where
  \<comment> \<open>a document in a markdown code fence: the opening line with its tag (empty, or
      \<^verbatim>\<open>json\<close>), the document, the closing line\<close>
  "fenced tag doc = ''```'' @ tag @ [CHR 0x0A] @ doc @ [CHR 0x0A] @ ''```''"

text \<open>
  The states of the page.  The page is mounted on a device whose slot is missing or
  holds a text that \<^verbatim>\<open>JSON.parse\<close> refuses; the user edits the problem text; a
  submission is refused by the length gate, or it creates its record and awaits the
  gateway (the state \<open>submit\<close> leaves is the state of the page during the \<^verbatim>\<open>await\<close>);
  the call is settled, for any answer of the gateway, in whatever state the page is
  then; the page is closed and mounted again on the storage it has left, at any of
  these moments.  Two things are taken from outside the code: the clock gives a
  submission an identifier that no record of the history has, and a history that the
  page has stored is read back as it was written.  The rule \<open>settled\<close> lets any
  \<open>in_progress\<close> record be settled, the record of a call that a reload has interrupted
  too: the relation holds of every state the page reaches, and of some it does not.
\<close>

inductive reachable ::
  "(string \<Rightarrow> AnalysisItem list option) \<Rightarrow> (string \<Rightarrow> jsval option) \<Rightarrow>
   (AnalysisItem list \<Rightarrow> string) \<Rightarrow> page_state \<Rightarrow> bool"
  for load_parse JSON_parse JSON_stringify where
  mount: "store history_key = None
            \<or> (\<exists>blob. store history_key = Some blob \<and> load_parse blob = None) \<Longrightarrow>
          startup load_parse JSON_stringify store = Inr st \<Longrightarrow>
          reachable load_parse JSON_parse JSON_stringify st"
| edit: "reachable load_parse JSON_parse JSON_stringify st \<Longrightarrow>
         reachable load_parse JSON_parse JSON_stringify (st\<lparr> currentProblem := p \<rparr>)"
| gate: "reachable load_parse JSON_parse JSON_stringify st \<Longrightarrow>
         too_short (currentProblem st) \<Longrightarrow>
         handleAnalyze JSON_parse JSON_stringify now1 now2 reply st = Inr st' \<Longrightarrow>
         reachable load_parse JSON_parse JSON_stringify st'"
| pending: "reachable load_parse JSON_parse JSON_stringify st \<Longrightarrow>
            \<not> too_short (currentProblem st) \<Longrightarrow>
            string_of_int now1 \<notin> id' ` set (analysisHistory st) \<Longrightarrow>
            reachable load_parse JSON_parse JSON_stringify (submit JSON_stringify now1 now2 st)"
| settled: "reachable load_parse JSON_parse JSON_stringify st \<Longrightarrow>
            item \<in> set (analysisHistory st) \<Longrightarrow> status item = in_progress \<Longrightarrow>
            settle JSON_parse JSON_stringify (id' item) reply st = Inr st' \<Longrightarrow>
            reachable load_parse JSON_parse JSON_stringify st'"
| reload: "reachable load_parse JSON_parse JSON_stringify st \<Longrightarrow>
           analysisHistory st \<noteq> [] \<longrightarrow>
             JSON_stringify (analysisHistory st) \<noteq> []
             \<and> load_parse (JSON_stringify (analysisHistory st)) = Some (analysisHistory st) \<Longrightarrow>
           startup load_parse JSON_stringify (localStorage st) = Inr st' \<Longrightarrow>
           reachable load_parse JSON_parse JSON_stringify st'"

text \<open>Notions for the proof of the invariant of the reachable states.\<close>

definition record_inv :: "AnalysisItem \<Rightarrow> bool" where
  \<comment> \<open>a record has a result exactly when it is \<open>completed\<close>; its confidence is then
      the confidence read of that result\<close>
  "record_inv item =
     ((status item = completed \<longrightarrow>
         (\<exists>r. result item = Some r \<and> read_confidence r = Inr (confidence item)))
    \<and> (status item \<noteq> completed \<longrightarrow> result item = None))"

definition page_inv ::
  "(string \<Rightarrow> AnalysisItem list option) \<Rightarrow> (AnalysisItem list \<Rightarrow> string) \<Rightarrow> page_state \<Rightarrow> bool" where
  \<comment> \<open>the ids are distinct, the records are as above, and the slot holds the history
      unless the history is empty\<close>
  "page_inv load_parse JSON_stringify st =
     (distinct (map id' (analysisHistory st))
    \<and> list_all record_inv (analysisHistory st)
    \<and> (if analysisHistory st = []
        then localStorage st history_key = None
           \<or> (\<exists>blob. localStorage st history_key = Some blob \<and> load_parse blob = None)
        else localStorage st history_key = Some (JSON_stringify (analysisHistory st))))"

definition example_problem :: string where
  "example_problem = ''Why do employees leave companies and what causes attrition spikes?''"

definition example_state :: page_state where
  "example_state = (initial_state Map.empty)\<lparr> currentProblem := example_problem \<rparr>"

definition example_doc :: string where
  "example_doc = ''{\"uncertainty_assessment\":{\"overall_confidence\":72}}''"

definition example_result :: jsval where
  "example_result = Obj [(''uncertainty_assessment'', Obj [(''overall_confidence'', Num 72)])]"


definition example_item :: AnalysisItem where
  "example_item =
     \<lparr> id' = ''42'', problem = example_problem, timestamp = 43,
       confidence = Num 72, status = completed, result = Some example_result,
       topic = Some ''Employee'' \<rparr>"

definition example_reply :: gateway_reply where
  "example_reply = Resolves (Str (fenced ''json'' example_doc))"

definition analysed_state :: page_state where
  \<comment> \<open>the page after one analysis of \<open>example_problem\<close>\<close>
  "analysed_state =
     projr (handleAnalyze json_parse history_stringify 42 43 example_reply example_state)"

definition reloaded_state :: page_state where
  \<comment> \<open>the page closed after that analysis and mounted again, the problem typed again\<close>
  "reloaded_state =
     (projr (startup history_parse history_stringify (localStorage analysed_state)))
       \<lparr> currentProblem := example_problem \<rparr>"

definition rehydration_state :: page_state where
  \<comment> \<open>the first render on a device that holds a stored history\<close>
  "rehydration_state = initial_state [history_key \<mapsto> history_stringify [example_item]]"

definition short_state :: page_state where
  "short_state = (initial_state Map.empty)\<lparr> currentProblem := ''hello'' \<rparr>"

definition forge_status_name :: "status \<Rightarrow> string" where
  "forge_status_name s =
     (case s of completed \<Rightarrow> ''completed'' | in_progress \<Rightarrow> ''in-progress''
              | failed \<Rightarrow> ''failed'')"

definition json_of_analysis :: "AnalysisHistory \<Rightarrow> jsval" where
  "json_of_analysis a =
     Obj ([(''id'', Str (h_id a)), (''problem'', Str (h_problem a)), (''date'', Str (h_date a)),
           (''confidence'', h_confidence a), (''status'', Str (forge_status_name (h_status a)))]
          @ (case causalAnalysis a of Some v \<Rightarrow> [(''causalAnalysis'', v)] | None \<Rightarrow> [])
          @ (case validation a of Some v \<Rightarrow> [(''validation'', v)] | None \<Rightarrow> [])
          @ (case uncertainty a of Some v \<Rightarrow> [(''uncertainty'', v)] | None \<Rightarrow> []))"

definition forge_stringify :: "AnalysisHistory list \<Rightarrow> string" where
  \<comment> \<open>\<^verbatim>\<open>JSON.stringify(history)\<close> of the alternate page\<close>
  "forge_stringify h = json_stringify (Arr (map json_of_analysis h))"

definition example_agent_reply :: agent_reply where
  "example_agent_reply = Returns True (Obj [(''result'', Obj [(''overall_confidence'', Num 80)])])"

definition example_forge_state :: forge_state where
  "example_forge_state =
     \<lparr> history = [], forge_currentAnalysis = None, problemInput = ''hello'',
       forge_isAnalyzing = False, analysisStep = [], forge_localStorage = Map.empty,
       forge_console_errors = [], forge_gateway_calls = [] \<rparr>"

section \<open>Auxiliary facts\<close>

subsection \<open>Fence stripping and trimming\<close>









subsection \<open>The history store and \<^verbatim>\<open>handleAnalyze\<close>\<close>

lemma updateById_absent: "aid \<notin> id' ` set h \<Longrightarrow> updateById aid p h = h"
  by (induction h) (auto simp: updateById_def)

lemma id_merge [simp]: "id' (merge p item) = id' item"
  by (simp add: merge_def)

lemma updateById_Cons_same:
  "id' r = aid \<Longrightarrow> updateById aid p (r # h) = merge p r # updateById aid p h"
  by (simp add: updateById_def)

lemma setAnalysisHistory_fields [simp]:
  "analysisHistory (setAnalysisHistory S f st) = f (analysisHistory st)"
  "currentProblem (setAnalysisHistory S f st) = currentProblem st"
  "isAnalyzing (setAnalysisHistory S f st) = isAnalyzing st"
  "currentAnalysis (setAnalysisHistory S f st) = currentAnalysis st"
  "alerts (setAnalysisHistory S f st) = alerts st"
  "console_errors (setAnalysisHistory S f st) = console_errors st"
  "gateway_calls (setAnalysisHistory S f st) = gateway_calls st"
  by (simp_all add: setAnalysisHistory_def save_effect_def)

lemma id_newAnalysis [simp]: "id' (newAnalysis now1 now2 p) = string_of_int now1"
  by (simp add: newAnalysis_def)

lemma submit_fields [simp]:
  "analysisHistory (submit S now1 now2 st) = newAnalysis now1 now2 (currentProblem st) # analysisHistory st"
  "currentProblem (submit S now1 now2 st) = currentProblem st"
  "currentAnalysis (submit S now1 now2 st) = None"
  "alerts (submit S now1 now2 st) = alerts st"
  "console_errors (submit S now1 now2 st) = console_errors st"
  "gateway_calls (submit S now1 now2 st) = gateway_calls st @ [(REASONING_ORCHESTRATOR_ID, currentProblem st)]"
  by (simp_all add: submit_def Let_def append_record_def)

lemma handleAnalyze_failure:
  assumes "\<not> too_short (currentProblem st)" and "try_block P reply = Inl e"
  shows "\<exists>st'. handleAnalyze P S now1 now2 reply st = Inr st'
     \<and> analysisHistory st' =
         merge failed_patch (newAnalysis now1 now2 (currentProblem st))
         # updateById (string_of_int now1) failed_patch (analysisHistory st)
     \<and> currentAnalysis st' = None
     \<and> isAnalyzing st' = False
     \<and> console_errors st' = console_errors st @ [(''Analysis failed:'', e)]
     \<and> alerts st' = alerts st @ [''Analysis failed. Please try again.'']
     \<and> gateway_calls st' = gateway_calls st @ [(REASONING_ORCHESTRATOR_ID, currentProblem st)]"
  using assms
  by (simp add: handleAnalyze_def settle_def Let_def updateById_Cons_same)

lemma handleAnalyze_success:
  assumes "\<not> too_short (currentProblem st)" and "try_block P reply = Inr (r, c)"
  shows "\<exists>st'. handleAnalyze P S now1 now2 reply st = Inr st'
     \<and> analysisHistory st' =
         merge (completed_patch r c) (newAnalysis now1 now2 (currentProblem st))
         # updateById (string_of_int now1) (completed_patch r c) (analysisHistory st)
     \<and> currentAnalysis st' = Some r
     \<and> isAnalyzing st' = False
     \<and> console_errors st' = console_errors st
     \<and> alerts st' = alerts st
     \<and> gateway_calls st' = gateway_calls st @ [(REASONING_ORCHESTRATOR_ID, currentProblem st)]"
  using assms
  by (simp add: handleAnalyze_def settle_def Let_def updateById_Cons_same)

lemma handleAnalyze_rejected:
  assumes "too_short (currentProblem st)"
  shows "handleAnalyze P S now1 now2 reply st =
           Inr (st\<lparr> alerts := alerts st @ [''Please enter a problem statement (minimum 10 characters)''] \<rparr>)"
  using assms by (simp add: handleAnalyze_def)

lemma merge_failed [simp]:
  "status (merge failed_patch item) = failed"
  "result (merge failed_patch item) = result item"
  "confidence (merge failed_patch item) = confidence item"
  by (simp_all add: merge_def failed_patch_def)

lemma merge_completed [simp]:
  "status (merge (completed_patch r c) item) = completed"
  "result (merge (completed_patch r c) item) = Some r"
  "confidence (merge (completed_patch r c) item) = c"
  by (simp_all add: merge_def completed_patch_def)

lemma try_block_malformed:
  "P (clean_json raw) = None \<Longrightarrow>
   try_block P (Resolves (Str raw)) = Inl (SyntaxError (clean_json raw))"
  by (simp add: try_block_def parse_response_def)

lemma parse_response_clean:
  "clean_json a = clean_json b \<Longrightarrow> parse_response P (Str a) = parse_response P (Str b)"
  by (simp add: parse_response_def split: option.splits)


lemma read_confidence_defined:
  "read_confidence r = Inr c \<Longrightarrow> r \<noteq> Undefined \<and> r \<noteq> Null"
  by (auto simp: read_confidence_def)

lemma newAnalysis_fields [simp]:
  "status (newAnalysis now1 now2 p) = in_progress"
  "result (newAnalysis now1 now2 p) = None"
  "confidence (newAnalysis now1 now2 p) = Num 0"
  by (simp_all add: newAnalysis_def)

lemma merge_failed_newAnalysis:
  "merge failed_patch (newAnalysis now1 now2 p) = (newAnalysis now1 now2 p)\<lparr> status := failed \<rparr>"
  by (simp add: merge_def failed_patch_def)

lemma handleAnalyze_cong:
  "try_block P reply1 = try_block P reply2 \<Longrightarrow>
   handleAnalyze P S now1 now2 reply1 st = handleAnalyze P S now1 now2 reply2 st"
  by (simp add: handleAnalyze_def settle_def)

lemma handleAnalyze_returns: "\<exists>st'. handleAnalyze P S now1 now2 reply st = Inr st'"
  by (simp add: handleAnalyze_def settle_def Let_def split: sum.splits prod.splits)

subsection \<open>The reachable states\<close>

lemma startup_unreadable:
  assumes "store history_key = None \<or> (\<exists>blob. store history_key = Some blob \<and> L blob = None)"
  shows "\<exists>st. startup L S store = Inr st \<and> analysisHistory st = [] \<and> localStorage st = store"
  using assms
  by (auto simp: startup_def load_effect_def initial_state_def save_effect_def Let_def)

lemma startup_saved:
  assumes "store history_key = Some (S h)" and "S h \<noteq> []" and "L (S h) = Some h" and "h \<noteq> []"
  shows "\<exists>st. startup L S store = Inr st \<and> analysisHistory st = h \<and> localStorage st = store"
proof -
  have "store(history_key \<mapsto> S h) = store" using assms(1) by (simp add: fun_upd_idem)
  then show ?thesis using assms
    by (simp add: startup_def load_effect_def initial_state_def save_effect_def Let_def
      setAnalysisHistory_def)
qed

lemma startup_returns: "\<exists>st. startup L S store = Inr st"
  by (simp add: startup_def load_effect_def Let_def split: option.splits)

lemma localStorage_setAnalysisHistory:
  "localStorage (setAnalysisHistory S f st) =
     (if f (analysisHistory st) = [] then localStorage st
      else (localStorage st)(history_key \<mapsto> S (f (analysisHistory st))))"
  by (simp add: setAnalysisHistory_def save_effect_def)

lemma localStorage_submit:
  "localStorage (submit S now1 now2 st) history_key =
     Some (S (newAnalysis now1 now2 (currentProblem st) # analysisHistory st))"
  by (simp add: submit_def Let_def localStorage_setAnalysisHistory append_record_def)

lemma updateById_Nil_iff: "updateById aid p h = [] \<longleftrightarrow> h = []"
  by (simp add: updateById_def)

lemma map_id_updateById: "map id' (updateById aid p h) = map id' h"
  by (induction h) (simp_all add: updateById_def)

lemma settle_history:
  assumes "settle P S aid reply st = Inr st'"
  shows "analysisHistory st' =
           updateById aid (case try_block P reply of
                             Inr (r, c) \<Rightarrow> completed_patch r c | Inl e \<Rightarrow> failed_patch)
             (analysisHistory st)
       \<and> localStorage st' =
           (if analysisHistory st' = [] then localStorage st
            else (localStorage st)(history_key \<mapsto> S (analysisHistory st')))"
  using assms
  by (auto simp: settle_def Let_def localStorage_setAnalysisHistory
      split: sum.splits prod.splits)

lemma try_block_confidence:
  "try_block P reply = Inr (r, c) \<Longrightarrow> read_confidence r = Inr c"
  by (auto simp: try_block_def split: gateway_reply.splits sum.splits)

lemma record_inv_patch:
  assumes "record_inv item" and "status item = in_progress"
  shows "record_inv (merge (case try_block P reply of
                             Inr (r, c) \<Rightarrow> completed_patch r c | Inl e \<Rightarrow> failed_patch) item)"
proof (cases "try_block P reply")
  case (Inl e)
  then show ?thesis using assms by (simp add: record_inv_def)
next
  case (Inr rc)
  obtain r c where rc: "rc = (r, c)" by (cases rc)
  from try_block_confidence[OF Inr[unfolded rc]] show ?thesis
    by (simp add: record_inv_def Inr rc)
qed

lemma updateById_inv:
  assumes d: "distinct (map id' h)" and a: "list_all record_inv h"
    and i: "item \<in> set h" and s: "status item = in_progress"
    and q: "record_inv (merge p item)"
  shows "list_all record_inv (updateById (id' item) p h)"
proof -
  have inj: "inj_on id' (set h)" using d by (simp add: distinct_map)
  have *: "record_inv (if id' y = id' item then merge p y else y)" if "y \<in> set h" for y
  proof (cases "id' y = id' item")
    case True
    then have "y = item" using inj that i by (auto dest: inj_onD)
    then show ?thesis using q by simp
  next
    case False
    then show ?thesis using a that by (simp add: list_all_iff)
  qed
  show ?thesis unfolding updateById_def list_all_iff
  proof
    fix x assume "x \<in> set (map (\<lambda>y. if id' y = id' item then merge p y else y) h)"
    then obtain y where "y \<in> set h" "x = (if id' y = id' item then merge p y else y)"
      by auto
    then show "record_inv x" using *[of y] by simp
  qed
qed

lemma reachable_inv:
  assumes "reachable L P S st"
  shows "page_inv L S st"
  using assms
proof (induction rule: reachable.induct)
  case (mount store st)
  from startup_unreadable[of store L S] mount(1,2)
  have "analysisHistory st = []" "localStorage st = store" by auto
  then show ?case using mount(1) by (simp add: page_inv_def)
next
  case (edit st p)
  then show ?case by (simp add: page_inv_def)
next
  case (gate st now1 now2 reply st')
  from handleAnalyze_rejected[OF gate(2), of P S now1 now2 reply] gate(3)
  have "st' = st\<lparr> alerts := alerts st @ [''Please enter a problem statement (minimum 10 characters)''] \<rparr>"
    by simp
  then show ?case using gate.IH by (simp add: page_inv_def)
next
  case (pending st now1 now2)
  have "record_inv (newAnalysis now1 now2 (currentProblem st))"
    by (simp add: record_inv_def)
  then show ?case using pending.IH pending(3)
    by (simp add: page_inv_def localStorage_submit)
next
  case (settled st item reply st')
  let ?p = "case try_block P reply of Inr (r, c) \<Rightarrow> completed_patch r c | Inl e \<Rightarrow> failed_patch"
  from settle_history[OF settled(4)]
  have h: "analysisHistory st' = updateById (id' item) ?p (analysisHistory st)"
    and l: "localStorage st' =
           (if analysisHistory st' = [] then localStorage st
            else (localStorage st)(history_key \<mapsto> S (analysisHistory st')))"
    by simp_all
  have ne: "analysisHistory st \<noteq> []" using settled(2) by auto
  then have ne': "analysisHistory st' \<noteq> []" by (simp add: h updateById_Nil_iff)
  have d: "distinct (map id' (analysisHistory st))"
    and a: "list_all record_inv (analysisHistory st)"
    using settled.IH by (simp_all add: page_inv_def)
  have "record_inv item" using a settled(2) by (simp add: list_all_iff)
  from record_inv_patch[OF this settled(3), of P reply]
  have "list_all record_inv (analysisHistory st')"
    unfolding h by (rule updateById_inv[OF d a settled(2,3)])
  then show ?case using d ne' l by (simp add: page_inv_def h map_id_updateById)
next
  case (reload st st')
  show ?case
  proof (cases "analysisHistory st = []")
    case True
    then have u: "localStorage st history_key = None
           \<or> (\<exists>blob. localStorage st history_key = Some blob \<and> L blob = None)"
      using reload.IH by (simp add: page_inv_def)
    from startup_unreadable[of "localStorage st" L S] u reload(3)
    have "analysisHistory st' = []" "localStorage st' = localStorage st" by auto
    then show ?thesis using u by (simp add: page_inv_def)
  next
    case False
    then have s: "localStorage st history_key = Some (S (analysisHistory st))"
      using reload.IH by (simp add: page_inv_def)
    from reload(2) False have c: "S (analysisHistory st) \<noteq> []"
      "L (S (analysisHistory st)) = Some (analysisHistory st)" by simp_all
    from startup_saved[of "localStorage st" S "analysisHistory st" L] s c False reload(3)
    have "analysisHistory st' = analysisHistory st" "localStorage st' = localStorage st" by auto
    then show ?thesis using reload.IH by (simp add: page_inv_def)
  qed
qed

lemma handleAnalyze_settle:
  "\<not> too_short (currentProblem st) \<Longrightarrow>
   handleAnalyze P S now1 now2 reply st =
     settle P S (string_of_int now1) reply (submit S now1 now2 st)"
  by (simp add: handleAnalyze_def)

lemma handleAnalyze_reachable:
  assumes r: "reachable L P S st" and t: "\<not> too_short (currentProblem st)"
    and f: "string_of_int now1 \<notin> id' ` set (analysisHistory st)"
    and h: "handleAnalyze P S now1 now2 reply st = Inr st'"
  shows "reachable L P S st'"
proof -
  let ?new = "newAnalysis now1 now2 (currentProblem st)"
  have p: "reachable L P S (submit S now1 now2 st)" using r t f by (rule reachable.pending)
  have i: "?new \<in> set (analysisHistory (submit S now1 now2 st))" by simp
  have s: "status ?new = in_progress" by simp
  have "settle P S (id' ?new) reply (submit S now1 now2 st) = Inr st'"
    using h handleAnalyze_settle[OF t, of P S now1 now2 reply] by simp
  with p i s show ?thesis by (rule reachable.settled)
qed

lemma resolved_record:
  "(case reply of
      Rejects e \<Rightarrow> new\<lparr> status := failed \<rparr>
    | Resolves response \<Rightarrow>
        (case parse_response P response of
           Inl e \<Rightarrow> new\<lparr> status := failed \<rparr>
         | Inr r \<Rightarrow>
             (case read_confidence r of
                Inl e \<Rightarrow> new\<lparr> status := failed \<rparr>
              | Inr c \<Rightarrow> new\<lparr> result := Some r, confidence := c, status := completed \<rparr>)))
   = merge (case try_block P reply of
              Inr (r, c) \<Rightarrow> completed_patch r c | Inl e \<Rightarrow> failed_patch) new"
  by (simp add: try_block_def merge_def completed_patch_def failed_patch_def
      split: gateway_reply.splits sum.splits)

lemma handleAnalyze_head:
  assumes "\<not> too_short (currentProblem st)"
  shows "\<exists>st'. handleAnalyze P S now1 now2 reply st = Inr st'
     \<and> analysisHistory st' =
         merge (case try_block P reply of
                  Inr (r, c) \<Rightarrow> completed_patch r c | Inl e \<Rightarrow> failed_patch)
           (newAnalysis now1 now2 (currentProblem st))
         # updateById (string_of_int now1)
             (case try_block P reply of
                Inr (r, c) \<Rightarrow> completed_patch r c | Inl e \<Rightarrow> failed_patch)
             (analysisHistory st)"
proof (cases "try_block P reply")
  case (Inl e)
  from handleAnalyze_failure[OF assms Inl, of S now1 now2] show ?thesis by (auto simp: Inl)
next
  case (Inr rc)
  obtain r c where rc: "rc = (r, c)" by (cases rc)
  from handleAnalyze_success[OF assms Inr[unfolded rc], of S now1 now2] show ?thesis
    by (auto simp: Inr rc)
qed

lemma status_patched:
  "status (merge (case try_block P reply of
                    Inr (r, c) \<Rightarrow> completed_patch r c | Inl e \<Rightarrow> failed_patch) item)
     \<noteq> in_progress"
  by (simp split: sum.splits prod.splits)

subsection \<open>The gateway calls of \<^verbatim>\<open>runAnalysis\<close>\<close>

lemma parseAgentResponse_fields:
  "forge_gateway_calls (snd (parseAgentResponse response st)) = forge_gateway_calls st"
  "problemInput (snd (parseAgentResponse response st)) = problemInput st"
  by (simp_all add: parseAgentResponse_def split: sum.splits)

lemma callAIAgent_fields:
  "forge_gateway_calls (snd (callAIAgent m a reply st)) = forge_gateway_calls st @ [(m, a)]"
  "problemInput (snd (callAIAgent m a reply st)) = problemInput st"
  by (simp_all add: callAIAgent_def Let_def split: agent_reply.splits)

lemma uncertainty_step_calls:
  "\<exists>more. forge_gateway_calls (snd (snd (uncertainty_step r3 a s))) = forge_gateway_calls s @ more"
proof -
  define m where "m = ''Quantify the uncertainty in this analysis: '' @ problemInput s"
  define s0 where "s0 = s\<lparr> analysisStep := ''Quantifying uncertainty...'' \<rparr>"
  obtain x s3 where c: "callAIAgent m AGENT_IDS_uncertaintyQuantifier r3 s0 = (x, s3)"
    by (cases "callAIAgent m AGENT_IDS_uncertaintyQuantifier r3 s0")
  have s3: "forge_gateway_calls s3 = forge_gateway_calls s @ [(m, AGENT_IDS_uncertaintyQuantifier)]"
    using callAIAgent_fields(1)[of m AGENT_IDS_uncertaintyQuantifier r3 s0] c
    by (simp add: s0_def)
  have unf: "uncertainty_step r3 a s =
     (case (x, s3) of
        (Inl e, s3) \<Rightarrow> (Some e, a, s3)
      | (Inr (success, response), s3) \<Rightarrow>
          if success
          then (let (uncertaintyData, s4) = parseAgentResponse response s3;
                    a3 = a\<lparr> uncertainty := Some uncertaintyData \<rparr>
                in case get_prop uncertaintyData ''overall_confidence'' of
                     Inl e \<Rightarrow> (Some e, a3, s4)
                   | Inr oc \<Rightarrow> (None, a3\<lparr> h_confidence := or_else oc (Num 0) \<rparr>, s4))
          else (None, a, s3))"
    unfolding uncertainty_step_def m_def[symmetric] s0_def[symmetric] c ..
  show ?thesis
  proof (cases x)
    case (Inl e)
    then show ?thesis unfolding unf using s3 by simp
  next
    case (Inr sr)
    obtain success response where sr: "sr = (success, response)" by (cases sr)
    obtain u s4 where u: "parseAgentResponse response s3 = (u, s4)" by (cases "parseAgentResponse response s3")
    have s4: "forge_gateway_calls s4 = forge_gateway_calls s3"
      using parseAgentResponse_fields(1)[of response s3] u by simp
    show ?thesis unfolding unf Inr sr using s3 s4 u
      by (cases success; cases "get_prop u ''overall_confidence''") simp_all
  qed
qed

lemma validation_step_calls:
  "\<exists>more. forge_gateway_calls (snd (snd (validation_step r2 r3 a s))) = forge_gateway_calls s @ more"
proof -
  define m where "m = ''Validate the reasoning in this problem: '' @ problemInput s"
  define s0 where "s0 = s\<lparr> analysisStep := ''Validating logical consistency...'' \<rparr>"
  obtain x s2 where c: "callAIAgent m AGENT_IDS_commonSenseValidator r2 s0 = (x, s2)"
    by (cases "callAIAgent m AGENT_IDS_commonSenseValidator r2 s0")
  have s2: "forge_gateway_calls s2 = forge_gateway_calls s @ [(m, AGENT_IDS_commonSenseValidator)]"
    using callAIAgent_fields(1)[of m AGENT_IDS_commonSenseValidator r2 s0] c
    by (simp add: s0_def)
  have unf: "validation_step r2 r3 a s =
     (case (x, s2) of
        (Inl e, s2) \<Rightarrow> (Some e, a, s2)
      | (Inr (success, response), s2) \<Rightarrow>
          if success
          then (let (validationData, s3) = parseAgentResponse response s2
                in uncertainty_step r3 (a\<lparr> validation := Some validationData \<rparr>) s3)
          else uncertainty_step r3 a s2)"
    unfolding validation_step_def m_def[symmetric] s0_def[symmetric] c ..
  show ?thesis
  proof (cases x)
    case (Inl e)
    then show ?thesis unfolding unf using s2 by simp
  next
    case (Inr sr)
    obtain success response where sr: "sr = (success, response)" by (cases sr)
    obtain u s3 where u: "parseAgentResponse response s2 = (u, s3)"
      by (cases "parseAgentResponse response s2")
    have s3: "forge_gateway_calls s3 = forge_gateway_calls s2"
      using parseAgentResponse_fields(1)[of response s2] u by simp
    obtain more1 where m1: "forge_gateway_calls (snd (snd (uncertainty_step r3 a s2))) =
        forge_gateway_calls s2 @ more1"
      using uncertainty_step_calls by blast
    obtain more2 where m2: "forge_gateway_calls
        (snd (snd (uncertainty_step r3 (a\<lparr> validation := Some u \<rparr>) s3))) =
        forge_gateway_calls s3 @ more2"
      using uncertainty_step_calls by blast
    show ?thesis unfolding unf Inr sr using s2 s3 u m1 m2
      by (cases success) simp_all
  qed
qed

lemma causal_step_calls:
  "\<exists>more. forge_gateway_calls (snd (snd (causal_step r1 r2 r3 a s))) =
     forge_gateway_calls s
     @ (''Analyze the causal relationships in this problem: '' @ problemInput s,
        AGENT_IDS_causalAnalysis) # more"
proof -
  define m where "m = ''Analyze the causal relationships in this problem: '' @ problemInput s"
  define s0 where "s0 = s\<lparr> analysisStep := ''Analyzing causal relationships...'' \<rparr>"
  obtain x s1 where c: "callAIAgent m AGENT_IDS_causalAnalysis r1 s0 = (x, s1)"
    by (cases "callAIAgent m AGENT_IDS_causalAnalysis r1 s0")
  have s1: "forge_gateway_calls s1 = forge_gateway_calls s @ [(m, AGENT_IDS_causalAnalysis)]"
    using callAIAgent_fields(1)[of m AGENT_IDS_causalAnalysis r1 s0] c
    by (simp add: s0_def)
  have unf: "causal_step r1 r2 r3 a s =
     (case (x, s1) of
        (Inl e, s1) \<Rightarrow> (Some e, a, s1)
      | (Inr (success, response), s1) \<Rightarrow>
          if success
          then (let (causalData, s2) = parseAgentResponse response s1
                in validation_step r2 r3 (a\<lparr> causalAnalysis := Some causalData \<rparr>) s2)
          else validation_step r2 r3 a s1)"
    unfolding causal_step_def m_def[symmetric] s0_def[symmetric] c ..
  have goal: "\<exists>more. forge_gateway_calls (snd (snd (causal_step r1 r2 r3 a s))) =
     forge_gateway_calls s @ (m, AGENT_IDS_causalAnalysis) # more"
  proof (cases x)
    case (Inl e)
    then show ?thesis unfolding unf using s1 by simp
  next
    case (Inr sr)
    obtain success response where sr: "sr = (success, response)" by (cases sr)
    obtain u s2 where u: "parseAgentResponse response s1 = (u, s2)"
      by (cases "parseAgentResponse response s1")
    have s2: "forge_gateway_calls s2 = forge_gateway_calls s1"
      using parseAgentResponse_fields(1)[of response s1] u by simp
    obtain more1 where m1: "forge_gateway_calls (snd (snd (validation_step r2 r3 a s1))) =
        forge_gateway_calls s1 @ more1"
      using validation_step_calls by blast
    obtain more2 where m2: "forge_gateway_calls
        (snd (snd (validation_step r2 r3 (a\<lparr> causalAnalysis := Some u \<rparr>) s2))) =
        forge_gateway_calls s2 @ more2"
      using validation_step_calls by blast
    show ?thesis unfolding unf Inr sr using s1 s2 u m1 m2
      by (cases success) simp_all
  qed
  then show ?thesis unfolding m_def .
qed

lemma runAnalysis_calls:
  assumes "trim (problemInput fs) \<noteq> []"
  shows "\<exists>fs' more. runAnalysis S now iso_date r1 r2 r3 fs = Inr fs'
         \<and> forge_gateway_calls fs' = forge_gateway_calls fs
             @ (''Analyze the causal relationships in this problem: '' @ problemInput fs,
                AGENT_IDS_causalAnalysis) # more"
proof -
  define a0 where "a0 = \<lparr> h_id = string_of_int now, h_problem = problemInput fs, h_date = iso_date,
                 h_confidence = Num 0, h_status = in_progress, causalAnalysis = None,
                 validation = None, uncertainty = None \<rparr>"
  define st0 where "st0 = fs\<lparr> forge_isAnalyzing := True \<rparr>"
  obtain thrown a s where t: "causal_step r1 r2 r3 a0 st0 = (thrown, a, s)"
    by (cases "causal_step r1 r2 r3 a0 st0")
  obtain more where m: "forge_gateway_calls s =
     forge_gateway_calls fs
     @ (''Analyze the causal relationships in this problem: '' @ problemInput fs,
        AGENT_IDS_causalAnalysis) # more"
    using causal_step_calls[of r1 r2 r3 a0 st0] t by (auto simp: st0_def)
  have "runAnalysis S now iso_date r1 r2 r3 fs =
     Inr ((case thrown of
                     None \<Rightarrow>
                       (let a' = a\<lparr> h_status := completed \<rparr> in
                        forge_save_effect S
                          (s\<lparr> forge_currentAnalysis := Some a', history := a' # history s \<rparr>))
                   | Some error \<Rightarrow>
                       s\<lparr> forge_console_errors :=
                            forge_console_errors s @ [(''Analysis failed:'', error)],
                          forge_currentAnalysis := Some (a\<lparr> h_status := failed \<rparr>) \<rparr>)
           \<lparr> forge_isAnalyzing := False, analysisStep := [] \<rparr>)"
    using assms unfolding runAnalysis_def a0_def[symmetric] st0_def[symmetric] Let_def t
    by simp
  then show ?thesis using m
    by (cases thrown) (simp_all add: forge_save_effect_def Let_def)
qed

subsection \<open>The reference codec reads back what it writes\<close>

lemma digit_char [simp]:
  "d < 10 \<Longrightarrow> is_digit (char_of (48 + d))"
  "d < 10 \<Longrightarrow> (of_char (char_of (48 + d)) :: nat) = 48 + d"
  by (simp_all add: is_digit_def)

lemma string_of_nat_digits: "list_all is_digit (string_of_nat n)"
  by (induction n rule: string_of_nat.induct) (subst string_of_nat.simps, simp)

lemma string_of_nat_nonempty: "string_of_nat n \<noteq> []"
  by (subst string_of_nat.simps) simp

lemma digits_val_append:
  "digits_val (ds @ [d]) = digits_val ds * 10 + (of_char d - 48)"
  by (simp add: digits_val_def)

lemma digits_val_string_of_nat: "digits_val (string_of_nat n) = n"
proof (induction n rule: string_of_nat.induct)
  case (1 n)
  show ?case
  proof (cases "n < 10")
    case True
    then show ?thesis by (subst string_of_nat.simps) (simp add: digits_val_def)
  next
    case False
    then have "digits_val (string_of_nat (n div 10)) = n div 10" using 1 by simp
    with False show ?thesis
      by (subst string_of_nat.simps) (simp add: digits_val_append)
  qed
qed

lemma hd_string_of_nat: "0 < n \<Longrightarrow> hd (string_of_nat n) \<noteq> CHR ''0''"
proof (induction n rule: string_of_nat.induct)
  case (1 n)
  show ?case
  proof (cases "n < 10")
    case True
    have "char_of (48 + n) \<noteq> CHR ''0''"
    proof
      assume "char_of (48 + n) = CHR ''0''"
      then have "(of_char (char_of (48 + n)) :: nat) = of_char (CHR ''0'')" by simp
      then show False using True 1(2) by simp
    qed
    with True show ?thesis
      by (subst string_of_nat.simps) simp
  next
    case False
    then have "hd (string_of_nat (n div 10)) \<noteq> CHR ''0''" using 1 by simp
    with False show ?thesis
      by (subst string_of_nat.simps) (simp add: string_of_nat_nonempty)
  qed
qed

lemma length_string_of_nat_gt1: "1 < length (string_of_nat n) \<Longrightarrow> 0 < n"
  by (cases "n = 0") (simp_all add: string_of_nat.simps)

lemma delimits_not_digit:
  "delimits rest \<Longrightarrow> rest \<noteq> [] \<Longrightarrow>
   \<not> is_digit (hd rest) \<and> hd rest \<notin> {CHR ''.'', CHR ''e'', CHR ''E''}"
  by (auto simp: delimits_def is_digit_def)

lemma takeWhile_digits:
  "list_all is_digit ds \<Longrightarrow> delimits rest \<Longrightarrow> takeWhile is_digit (ds @ rest) = ds"
  "list_all is_digit ds \<Longrightarrow> delimits rest \<Longrightarrow> dropWhile is_digit (ds @ rest) = rest"
  using delimits_not_digit[of rest]
  by (cases rest; induction ds; simp)+

lemma parse_number_string_of_int:
  assumes "delimits rest"
  shows "parse_number (string_of_int i @ rest) = Some (Num i, rest)"
proof -
  let ?ds = "string_of_nat (nat \<bar>i\<bar>)"
  have ds: "list_all is_digit ?ds" "?ds \<noteq> []" "digits_val ?ds = nat \<bar>i\<bar>"
    by (simp_all add: string_of_nat_digits string_of_nat_nonempty digits_val_string_of_nat)
  have lead: "\<not> (1 < length ?ds \<and> hd ?ds = CHR ''0'')"
    using hd_string_of_nat[of "nat \<bar>i\<bar>"] length_string_of_nat_gt1[of "nat \<bar>i\<bar>"] by auto
  have tw: "takeWhile is_digit (?ds @ rest) = ?ds" "dropWhile is_digit (?ds @ rest) = rest"
    using takeWhile_digits[OF ds(1) assms] by simp_all
  have r: "\<not> (rest \<noteq> [] \<and> hd rest \<in> {CHR ''.'', CHR ''e'', CHR ''E''})"
    using delimits_not_digit[OF assms] by blast
  obtain c cs where c: "?ds = c # cs" using ds(2) by (cases ?ds) auto
  then have cd: "is_digit c" using ds(1) by simp
  then have cm: "c \<noteq> CHR ''-''" by (auto simp: is_digit_def)
  show ?thesis
  proof (cases "i < 0")
    case True
    then have s: "string_of_int i = CHR ''-'' # ?ds"
      by (simp add: string_of_int_def abs_if)
    show ?thesis
      unfolding parse_number_def s using tw ds lead r True
      by (simp add: Let_def)
  next
    case False
    then have s: "string_of_int i = ?ds"
      by (simp add: string_of_int_def abs_if)
    have sp: "(case ?ds @ rest of
                 c # cs \<Rightarrow> if c = CHR ''-'' then (True, cs) else (False, ?ds @ rest)
               | [] \<Rightarrow> (False, ?ds @ rest)) = (False, ?ds @ rest)"
      using c cm by simp
    have "parse_number (?ds @ rest) = Some (Num i, rest)"
      unfolding parse_number_def sp using tw ds lead r False
      by (simp add: Let_def)
    then show ?thesis by (simp add: s)
  qed
qed

lemma hex_val_hex_digit: "k < 16 \<Longrightarrow> hex_val (hex_digit k) = Some k"
  by (simp add: hex_val_def hex_digit_def Let_def)

lemma hex4_low:
  assumes "n < 256"
  shows "hex4 (CHR ''0'') (CHR ''0'') (hex_digit (n div 16)) (hex_digit (n mod 16)) = Some n"
proof -
  have "n div 16 < 16" "n mod 16 < 16" using assms by simp_all
  then have "hex_val (hex_digit (n div 16)) = Some (n div 16)"
            "hex_val (hex_digit (n mod 16)) = Some (n mod 16)"
    by (simp_all add: hex_val_hex_digit)
  moreover have "hex_val (CHR ''0'') = Some 0" by (simp add: hex_val_def)
  ultimately show ?thesis by (simp add: hex4_def)
qed

lemma parse_chars_escape:
  assumes "unescape e = Some c" and "e \<noteq> CHR ''u''"
  shows "parse_chars (CHR 0x5C # e # t) = map_option (\<lambda>(s, r). (c # s, r)) (parse_chars t)"
  using assms by simp

lemma parse_chars_quote_char:
  "parse_chars (quote_char c @ t) = map_option (\<lambda>(s, r). (c # s, r)) (parse_chars t)"
proof -
  consider (q) "c = CHR 0x22" | (b) "c = CHR 0x5C" | (bs) "c = CHR 0x08" | (ff) "c = CHR 0x0C"
    | (nl) "c = CHR 0x0A" | (cr) "c = CHR 0x0D" | (tab) "c = CHR 0x09"
    | (ctl) "c \<notin> {CHR 0x22, CHR 0x5C, CHR 0x08, CHR 0x0C, CHR 0x0A, CHR 0x0D, CHR 0x09}"
            "(of_char c :: nat) < 32"
    | (raw) "c \<notin> {CHR 0x22, CHR 0x5C, CHR 0x08, CHR 0x0C, CHR 0x0A, CHR 0x0D, CHR 0x09}"
            "\<not> (of_char c :: nat) < 32"
    by blast
  then show ?thesis
  proof cases
    case q
    then show ?thesis by (simp add: quote_char_def unescape_def)
  next
    case b
    then show ?thesis by (simp add: quote_char_def unescape_def)
  next
    case bs
    then show ?thesis by (simp add: quote_char_def unescape_def)
  next
    case ff
    then show ?thesis by (simp add: quote_char_def unescape_def)
  next
    case nl
    then show ?thesis by (simp add: quote_char_def unescape_def)
  next
    case cr
    then show ?thesis by (simp add: quote_char_def unescape_def)
  next
    case tab
    then show ?thesis by (simp add: quote_char_def unescape_def)
  next
    case ctl
    have q: "quote_char c = [CHR 0x5C, CHR ''u'', CHR ''0'', CHR ''0'',
            hex_digit (of_char c div 16), hex_digit (of_char c mod 16)]"
      using ctl by (simp add: quote_char_def)
    have "(of_char c :: nat) < 256" using ctl(2) by simp
    from hex4_low[OF this] show ?thesis
      unfolding q by simp
  next
    case raw
    then show ?thesis by (simp add: quote_char_def)
  qed
qed

lemma parse_chars_quote:
  "parse_chars (concat (map quote_char s) @ CHR 0x22 # rest) = Some (s, rest)"
  by (induction s) (simp_all add: parse_chars_quote_char)

lemma skip_ws_Cons: "\<not> is_json_ws c \<Longrightarrow> skip_ws (c # cs) = c # cs"
  by (simp add: skip_ws_def)

lemma value_start_facts:
  "value_start c \<Longrightarrow> \<not> is_json_ws c \<and> c \<noteq> CHR '']'' \<and> c \<noteq> CHR ''}''"
  by (auto simp: value_start_def is_json_ws_def is_digit_def)

lemma string_of_int_start: "\<exists>c cs. string_of_int i = c # cs \<and> (c = CHR ''-'' \<or> is_digit c)"
proof (cases "i < 0")
  case True
  then show ?thesis by (simp add: string_of_int_def)
next
  case False
  obtain c cs where c: "string_of_nat (nat i) = c # cs"
    using string_of_nat_nonempty by (cases "string_of_nat (nat i)") auto
  then have "is_digit c" using string_of_nat_digits[of "nat i"] by simp
  with c False show ?thesis by (simp add: string_of_int_def)
qed

lemma json_stringify_start: "\<exists>c cs. json_stringify v = c # cs \<and> value_start c"
proof (cases v)
  case (Num i)
  then show ?thesis using string_of_int_start[of i] by (auto simp: value_start_def)
qed (auto simp: value_start_def quote_def)

lemma parse_value_Null: "parse_value (Suc n) (''null'' @ rest) = Some (Null, rest)"
  by (simp add: skip_ws_def is_json_ws_def starts_with_def)

lemma parse_value_Bool:
  "parse_value (Suc n) ((if b then ''true'' else ''false'') @ rest) = Some (Bool b, rest)"
  by (simp add: skip_ws_def is_json_ws_def starts_with_def)

lemma parse_value_Str: "parse_value (Suc n) (quote s @ rest) = Some (Str s, rest)"
  by (simp add: skip_ws_def is_json_ws_def quote_def parse_chars_quote)

lemma number_start_facts:
  "c = CHR ''-'' \<or> is_digit c \<Longrightarrow>
   \<not> is_json_ws c \<and> c \<noteq> CHR ''{'' \<and> c \<noteq> CHR ''['' \<and> c \<noteq> CHR 0x22
   \<and> c \<noteq> CHR ''t'' \<and> c \<noteq> CHR ''f'' \<and> c \<noteq> CHR ''n''"
  by (auto simp: is_json_ws_def is_digit_def)

lemma parse_value_Num:
  assumes "delimits rest"
  shows "parse_value (Suc n) (string_of_int i @ rest) = Some (Num i, rest)"
proof -
  obtain c cs where c: "string_of_int i = c # cs" "c = CHR ''-'' \<or> is_digit c"
    using string_of_int_start by blast
  note f = number_start_facts[OF c(2)]
  have sw: "\<not> starts_with ''true'' (c # cs @ rest)" "\<not> starts_with ''false'' (c # cs @ rest)"
    "\<not> starts_with ''null'' (c # cs @ rest)"
    using f by (simp_all add: starts_with_def)
  have "parse_value (Suc n) (c # cs @ rest) = parse_number (c # cs @ rest)"
    using f sw by (simp add: skip_ws_Cons)
  then show ?thesis using parse_number_string_of_int[OF assms, of i] c(1) by simp
qed

lemma skip_ws_punct [simp]:
  "skip_ws (CHR '','' # r) = CHR '','' # r"
  "skip_ws (CHR '']'' # r) = CHR '']'' # r"
  "skip_ws (CHR ''}'' # r) = CHR ''}'' # r"
  "skip_ws (CHR '':'' # r) = CHR '':'' # r"
  "skip_ws (CHR 0x22 # r) = CHR 0x22 # r"
  "skip_ws (CHR ''['' # r) = CHR ''['' # r"
  "skip_ws (CHR ''{'' # r) = CHR ''{'' # r"
  by (simp_all add: skip_ws_def is_json_ws_def)

lemma delimits_punct [simp]:
  "delimits []" "delimits (CHR '','' # r)" "delimits (CHR '']'' # r)" "delimits (CHR ''}'' # r)"
  by (simp_all add: delimits_def)

lemma parse_elements_join:
  assumes "\<And>x fuel rest. x \<in> set xs \<Longrightarrow> delimits rest \<Longrightarrow> length (json_stringify x) < fuel \<Longrightarrow>
             parse_value fuel (json_stringify x @ rest) = Some (x, rest)"
    and "xs \<noteq> []"
    and "length (join '','' (map json_stringify xs)) + 1 < fuel"
  shows "parse_elements fuel acc (join '','' (map json_stringify xs) @ CHR '']'' # rest)
           = Some (Arr (acc @ xs), rest)"
  using assms
proof (induction xs arbitrary: fuel acc)
  case Nil
  then show ?case by simp
next
  case (Cons x xs)
  obtain m where fuel: "fuel = Suc m" using Cons.prems(3) by (cases fuel) auto
  show ?case
  proof (cases xs)
    case Nil
    have "length (json_stringify x) < m" using Cons.prems(3) fuel Nil by simp
    then have "parse_value m (json_stringify x @ CHR '']'' # rest) = Some (x, CHR '']'' # rest)"
      using Cons.prems(1)[of x "CHR '']'' # rest" m] by simp
    then show ?thesis using Nil fuel by simp
  next
    case (Cons y ys)
    have j: "join '','' (map json_stringify (x # xs)) =
               json_stringify x @ CHR '','' # join '','' (map json_stringify xs)"
      using Cons by simp
    have "length (json_stringify x) < m" using Cons.prems(3) fuel j by simp
    then have pv: "parse_value m (json_stringify x @ CHR '','' # join '','' (map json_stringify xs) @ CHR '']'' # rest)
            = Some (x, CHR '','' # join '','' (map json_stringify xs) @ CHR '']'' # rest)"
      using Cons.prems(1)[of x "CHR '','' # join '','' (map json_stringify xs) @ CHR '']'' # rest" m]
      by simp
    have "length (join '','' (map json_stringify xs)) + 1 < m"
      using Cons.prems(3) fuel j by simp
    then have "parse_elements m (acc @ [x]) (join '','' (map json_stringify xs) @ CHR '']'' # rest)
            = Some (Arr ((acc @ [x]) @ xs), rest)"
      using Cons.IH[of m "acc @ [x]"] Cons.prems(1) Cons by simp
    then show ?thesis using pv fuel j by simp
  qed
qed

lemma obj_set_fresh: "k \<notin> fst ` set acc \<Longrightarrow> obj_set k v acc = acc @ [(k, v)]"
  by (induction acc) auto

lemma parse_members_join:
  assumes "\<And>k v fuel rest. (k, v) \<in> set kvs \<Longrightarrow> delimits rest \<Longrightarrow>
             length (json_stringify v) < fuel \<Longrightarrow>
             parse_value fuel (json_stringify v @ rest) = Some (v, rest)"
    and "kvs \<noteq> []"
    and "distinct (map fst (acc @ kvs))"
    and "length (join '','' (map member_text kvs)) + 1 < fuel"
  shows "parse_members fuel acc (join '','' (map member_text kvs) @ CHR ''}'' # rest)
           = Some (Obj (acc @ kvs), rest)"
  using assms
proof (induction kvs arbitrary: fuel acc)
  case Nil
  then show ?case by simp
next
  case (Cons kv kvs)
  obtain k v where kv: "kv = (k, v)" by (cases kv)
  obtain m where fuel: "fuel = Suc m" using Cons.prems(4) by (cases fuel) auto
  have fresh: "k \<notin> fst ` set acc" using Cons.prems(3) kv by auto
  have mt: "member_text kv = CHR 0x22 # concat (map quote_char k) @ CHR 0x22 # CHR '':'' # json_stringify v"
    by (simp add: member_text_def kv quote_def)
  show ?case
  proof (cases kvs)
    case Nil
    have "length (json_stringify v) < m" using Cons.prems(4) fuel Nil mt by simp
    then have "parse_value m (json_stringify v @ CHR ''}'' # rest) = Some (v, CHR ''}'' # rest)"
      using Cons.prems(1)[of k v "CHR ''}'' # rest" m] kv by simp
    then show ?thesis using Nil fuel mt fresh kv
      by (simp add: parse_chars_quote obj_set_fresh)
  next
    case (Cons kv' kvs')
    have j: "join '','' (map member_text (kv # kvs)) =
               member_text kv @ CHR '','' # join '','' (map member_text kvs)"
      using Cons by simp
    have "length (json_stringify v) < m" using Cons.prems(4) fuel j mt by simp
    then have pv: "parse_value m (json_stringify v @ CHR '','' # join '','' (map member_text kvs) @ CHR ''}'' # rest)
            = Some (v, CHR '','' # join '','' (map member_text kvs) @ CHR ''}'' # rest)"
      using Cons.prems(1)[of k v "CHR '','' # join '','' (map member_text kvs) @ CHR ''}'' # rest" m] kv
      by simp
    have len: "length (join '','' (map member_text kvs)) + 1 < m"
      using Cons.prems(4) fuel j by simp
    have dist: "distinct (map fst ((acc @ [(k, v)]) @ kvs))"
      using Cons.prems(3) kv by simp
    have ne: "kvs \<noteq> []" using Cons by simp
    have sub: "\<And>k v fuel rest. (k, v) \<in> set kvs \<Longrightarrow> delimits rest \<Longrightarrow>
             length (json_stringify v) < fuel \<Longrightarrow>
             parse_value fuel (json_stringify v @ rest) = Some (v, rest)"
      using Cons.prems(1) by (meson list.set_intros(2))
    have "parse_members m (acc @ [(k, v)]) (join '','' (map member_text kvs) @ CHR ''}'' # rest)
            = Some (Obj ((acc @ [(k, v)]) @ kvs), rest)"
      using Cons.IH[OF sub ne dist len] by simp
    then show ?thesis using pv fuel j mt fresh kv
      by (simp add: parse_chars_quote obj_set_fresh)
  qed
qed

lemma json_value_defined: "json_value v \<Longrightarrow> v \<noteq> Undefined"
  by auto

lemma json_stringify_Obj:
  assumes "list_all (\<lambda>kv. json_value (snd kv)) kvs"
  shows "json_stringify (Obj kvs) = CHR ''{'' # join '','' (map member_text kvs) @ ''}''"
proof -
  have "filter (\<lambda>kv. snd kv \<noteq> Undefined) kvs = kvs"
    using assms json_value_defined by (simp add: filter_id_conv list_all_iff)
  then show ?thesis by (simp add: member_text_def[abs_def])
qed

lemma join_start:
  assumes "xs \<noteq> []" and "\<And>x. x \<in> set xs \<Longrightarrow> \<exists>c cs. f x = c # cs \<and> P c"
  shows "\<exists>c cs. join sep (map f xs) = c # cs \<and> P c"
proof (cases xs)
  case Nil
  then show ?thesis using assms by simp
next
  case (Cons x ys)
  obtain c cs where "f x = c # cs" "P c" using assms(2)[of x] Cons by auto
  then show ?thesis using Cons by (cases ys) auto
qed

lemma parse_value_stringify:
  "json_value v \<Longrightarrow> delimits rest \<Longrightarrow> length (json_stringify v) < fuel \<Longrightarrow>
   parse_value fuel (json_stringify v @ rest) = Some (v, rest)"
proof (induction v arbitrary: fuel rest)
  case Undefined
  then show ?case by simp
next
  case Null
  then obtain n where "fuel = Suc n" by (cases fuel) auto
  then show ?case using parse_value_Null[of n rest] by simp
next
  case (Bool b)
  then obtain n where "fuel = Suc n" by (cases fuel) auto
  then show ?case using parse_value_Bool[of n b rest] by simp
next
  case (Num i)
  then obtain n where "fuel = Suc n" by (cases fuel) auto
  then show ?case using parse_value_Num[OF Num(2), of n i] by simp
next
  case (Str s)
  then obtain n where "fuel = Suc n" by (cases fuel) auto
  then show ?case using parse_value_Str[of n s rest] by simp
next
  case (Arr xs)
  then obtain n where fuel: "fuel = Suc n" by (cases fuel) auto
  show ?case
  proof (cases "xs = []")
    case True
    then show ?thesis using fuel by simp
  next
    case False
    have each: "\<And>x fuel rest. x \<in> set xs \<Longrightarrow> delimits rest \<Longrightarrow>
        length (json_stringify x) < fuel \<Longrightarrow>
        parse_value fuel (json_stringify x @ rest) = Some (x, rest)"
      using Arr.IH Arr.prems(1) by (simp add: list_all_iff)
    have len: "length (join '','' (map json_stringify xs)) + 1 < n"
      using Arr.prems(3) fuel by simp
    obtain c cs where c: "join '','' (map json_stringify xs) = c # cs" "value_start c"
      using join_start[OF False, of json_stringify value_start "'',''"] json_stringify_start
      by blast
    note f = value_start_facts[OF c(2)]
    have "parse_value (Suc n) (CHR ''['' # (c # cs) @ CHR '']'' # rest)
            = parse_elements n [] ((c # cs) @ CHR '']'' # rest)"
      using f by (simp add: skip_ws_Cons)
    then show ?thesis
      using parse_elements_join[OF each False len, where acc="[]" and rest=rest] c(1) fuel by simp
  qed
next
  case (Obj kvs)
  then obtain n where fuel: "fuel = Suc n" by (cases fuel) auto
  have vals: "list_all (\<lambda>kv. json_value (snd kv)) kvs" using Obj.prems(1) by simp
  note obj_text = json_stringify_Obj[OF vals]
  show ?case
  proof (cases "kvs = []")
    case True
    then show ?thesis using fuel by simp
  next
    case False
    have each: "\<And>k v fuel rest. (k, v) \<in> set kvs \<Longrightarrow> delimits rest \<Longrightarrow>
        length (json_stringify v) < fuel \<Longrightarrow>
        parse_value fuel (json_stringify v @ rest) = Some (v, rest)"
    proof -
      fix k v fuel rest
      assume m: "(k, v) \<in> set kvs" and d: "delimits rest" and l: "length (json_stringify v) < fuel"
      have jv: "json_value v" using vals m by (auto simp: list_all_iff)
      have sn: "v \<in> Basic_BNFs.snds (k, v)" by simp
      show "parse_value fuel (json_stringify v @ rest) = Some (v, rest)"
        by (rule Obj.IH[OF m sn jv d l])
    qed
    have dist: "distinct (map fst ([] @ kvs))" using Obj.prems(1) by simp
    have len: "length (join '','' (map member_text kvs)) + 1 < n"
      using Obj.prems(3) fuel obj_text by simp
    obtain c cs where c: "join '','' (map member_text kvs) = c # cs" "c = CHR 0x22"
      using join_start[OF False, of member_text "\<lambda>c. c = CHR 0x22" "'',''"]
      by (auto simp: member_text_def quote_def)
    have "parse_value (Suc n) (CHR ''{'' # (c # cs) @ CHR ''}'' # rest)
            = parse_members n [] ((c # cs) @ CHR ''}'' # rest)"
      using c(2) by simp
    then show ?thesis
      using parse_members_join[OF each False dist len, where rest=rest] c(1) fuel obj_text by simp
  qed
qed

lemma json_parse_stringify: "json_value v \<Longrightarrow> json_parse (json_stringify v) = Some v"
  using parse_value_stringify[of v "[]" "Suc (length (json_stringify v))"]
  by (simp add: json_parse_def skip_ws_def)

lemma status_of_name_status_name: "status_of_name (status_name s) = Some s"
  by (cases s) (simp_all add: status_name_def status_of_name_def)

lemma item_of_json_of_item: "item_of_json (json_of_item item) = Some item"
proof -
  obtain i p t c s r tp where item:
    "item = \<lparr> id' = i, problem = p, timestamp = t, confidence = c, status = s, result = r, topic = tp \<rparr>"
    by (cases item) auto
  show ?thesis
    unfolding item
    by (cases r; cases tp)
       (simp_all add: item_of_json_def json_of_item_def status_of_name_status_name)
qed

lemma those_items_map: "those_items (map json_of_item h) = Some h"
  by (induction h) (simp_all add: item_of_json_of_item)

lemma json_value_json_of_item: "well_formed item \<Longrightarrow> json_value (json_of_item item)"
  by (cases "result item"; cases "topic item")
     (simp_all add: well_formed_def json_of_item_def)

lemma history_parse_stringify:
  assumes "list_all well_formed h"
  shows "history_parse (history_stringify h) = Some h"
proof -
  have "json_value (Arr (map json_of_item h))"
    using assms by (simp add: list_all_iff json_value_json_of_item)
  from json_parse_stringify[OF this] show ?thesis
    by (simp add: history_parse_def history_stringify_def those_items_map)
qed

lemma history_stringify_nonempty: "history_stringify h \<noteq> []"
  by (simp add: history_stringify_def)

lemma persist_reload_any_codec:
  assumes "analysisHistory st \<noteq> []"
    and "JSON_stringify (analysisHistory st) \<noteq> []"
    and "JSON_parse (JSON_stringify (analysisHistory st)) = Some (analysisHistory st)"
  shows "\<exists>st'. startup JSON_parse JSON_stringify (localStorage (save_effect JSON_stringify st))
                 = Inr st'
            \<and> analysisHistory st' = analysisHistory st"
  using assms
  by (auto simp: startup_def load_effect_def initial_state_def save_effect_def Let_def
      setAnalysisHistory_def split: option.splits)

subsection \<open>The reference parser reads a value from its own text\<close>





















section \<open>The claims\<close>

subsection \<open>C1: a fenced response and the unwrapped document\<close>




subsection \<open>C2: a response that is not JSON\<close>

text \<open>
  Claim C2 says, among other things, that the failure on a malformed response carries
  the offending raw text.  \<^verbatim>\<open>handleAnalyze\<close> builds no failure of its own: it catches
  what \<^verbatim>\<open>JSON.parse\<close> throws on the stripped and trimmed text, logs it under the label
  \<^verbatim>\<open>Analysis failed:\<close>, sets the status of the record and shows a fixed alert.  The
  response \<^verbatim>\<open>not json\<close> in a \<^verbatim>\<open>json\<close> fence and the bare response \<^verbatim>\<open>not json\<close> are
  different raw texts; \<^verbatim>\<open>JSON.parse\<close> is called on the same text for both, and the page
  ends in the same state: the logged error is the one for \<^verbatim>\<open>not json\<close>, and nothing
  holds the fenced text.
\<close>

theorem malformed_failure_lacks_raw_text:
  "fenced ''json'' ''not json'' \<noteq> ''not json''
 \<and> clean_json (fenced ''json'' ''not json'') = ''not json''
 \<and> json_parse ''not json'' = None
 \<and> handleAnalyze json_parse history_stringify 42 43
       (Resolves (Str (fenced ''json'' ''not json''))) example_state
   = handleAnalyze json_parse history_stringify 42 43 (Resolves (Str ''not json'')) example_state
 \<and> map_sum id console_errors
       (handleAnalyze json_parse history_stringify 42 43
          (Resolves (Str (fenced ''json'' ''not json''))) example_state)
   = Inr [(''Analysis failed:'', SyntaxError ''not json'')]
 \<and> map_sum id alerts
       (handleAnalyze json_parse history_stringify 42 43
          (Resolves (Str (fenced ''json'' ''not json''))) example_state)
   = Inr [''Analysis failed. Please try again.'']"
proof -
  have n: "fenced ''json'' ''not json'' \<noteq> ''not json''" by code_simp
  have c: "clean_json (fenced ''json'' ''not json'') = ''not json''"
          "clean_json ''not json'' = ''not json''" by code_simp+
  have a: "json_parse ''not json'' = None" by code_simp
  have t: "try_block json_parse (Resolves (Str (fenced ''json'' ''not json'')))
             = Inl (SyntaxError ''not json'')"
          "try_block json_parse (Resolves (Str ''not json'')) = Inl (SyntaxError ''not json'')"
    using try_block_malformed[of json_parse "fenced ''json'' ''not json''"]
      try_block_malformed[of json_parse "''not json''"] a c by simp_all
  have e: "handleAnalyze json_parse history_stringify 42 43
             (Resolves (Str (fenced ''json'' ''not json''))) example_state
         = handleAnalyze json_parse history_stringify 42 43 (Resolves (Str ''not json''))
             example_state"
    by (rule handleAnalyze_cong) (simp add: t)
  have s: "\<not> too_short (currentProblem example_state)" by code_simp
  have z: "console_errors example_state = []" "alerts example_state = []"
    by (simp_all add: example_state_def initial_state_def)
  from handleAnalyze_failure[OF s t(1), of history_stringify 42 43] z n c a e
  show ?thesis by auto
qed

text \<open>
  Claim C2, amended: for every response string that \<open>JSON_parse\<close> refuses after the
  fences are stripped, \<^verbatim>\<open>handleAnalyze\<close> returns normally (no exception leaves it); the
  record it has created is at the head of the history with the status \<open>failed\<close> and
  no result; no result is shown (\<open>currentAnalysis\<close> stays \<^verbatim>\<open>null\<close>); the error that
  \<^verbatim>\<open>JSON.parse\<close> has thrown on the stripped and trimmed text is logged, and the fixed
  alert is shown.  The page ends in the state in which a gateway rejection with that
  error would leave it, and in the same state for every response that is stripped to
  the same text: of the raw response it keeps what the engine's error says about the
  stripped text, and nothing else.
\<close>

theorem malformed_response_marks_record_failed:
  assumes "JSON_parse (clean_json raw) = None" and "\<not> too_short (currentProblem st)"
  shows "\<exists>st'. handleAnalyze JSON_parse JSON_stringify now1 now2 (Resolves (Str raw)) st = Inr st'
     \<and> analysisHistory st' =
         (newAnalysis now1 now2 (currentProblem st))\<lparr> status := failed \<rparr>
         # updateById (string_of_int now1) failed_patch (analysisHistory st)
     \<and> result (hd (analysisHistory st')) = None
     \<and> currentAnalysis st' = None
     \<and> console_errors st' =
         console_errors st @ [(''Analysis failed:'', SyntaxError (clean_json raw))]
     \<and> alerts st' = alerts st @ [''Analysis failed. Please try again.'']
     \<and> handleAnalyze JSON_parse JSON_stringify now1 now2
          (Rejects (SyntaxError (clean_json raw))) st = Inr st'
     \<and> (\<forall>raw'. clean_json raw' = clean_json raw \<longrightarrow>
          handleAnalyze JSON_parse JSON_stringify now1 now2 (Resolves (Str raw')) st = Inr st')"
proof -
  have t: "try_block JSON_parse (Resolves (Str raw)) = Inl (SyntaxError (clean_json raw))"
    using try_block_malformed[of JSON_parse raw] assms(1) by simp
  from handleAnalyze_failure[OF assms(2) t, of JSON_stringify now1 now2]
  obtain st' where st':
    "handleAnalyze JSON_parse JSON_stringify now1 now2 (Resolves (Str raw)) st = Inr st'"
    "analysisHistory st' =
       merge failed_patch (newAnalysis now1 now2 (currentProblem st))
       # updateById (string_of_int now1) failed_patch (analysisHistory st)"
    "currentAnalysis st' = None"
    "console_errors st' =
       console_errors st @ [(''Analysis failed:'', SyntaxError (clean_json raw))]"
    "alerts st' = alerts st @ [''Analysis failed. Please try again.'']"
    by blast
  have r: "handleAnalyze JSON_parse JSON_stringify now1 now2
             (Rejects (SyntaxError (clean_json raw))) st = Inr st'"
    using handleAnalyze_cong[of JSON_parse "Rejects (SyntaxError (clean_json raw))"
        "Resolves (Str raw)" JSON_stringify now1 now2 st] t st'(1)
    by (simp add: try_block_def)
  have o: "handleAnalyze JSON_parse JSON_stringify now1 now2 (Resolves (Str raw')) st = Inr st'"
    if "clean_json raw' = clean_json raw" for raw'
  proof -
    have "try_block JSON_parse (Resolves (Str raw')) = try_block JSON_parse (Resolves (Str raw))"
      using parse_response_clean[OF that, of JSON_parse] by (simp add: try_block_def)
    from handleAnalyze_cong[OF this] st'(1) show ?thesis by simp
  qed
  from st' r o show ?thesis by (auto simp: merge_failed_newAnalysis)
qed

text \<open>The amended claim at the response \<^verbatim>\<open>not json\<close>, on \<open>example_state\<close>.\<close>

theorem malformed_response_witness:
  "json_parse (clean_json ''not json'') = None
 \<and> \<not> too_short (currentProblem example_state)
 \<and> (\<exists>st'. handleAnalyze json_parse history_stringify 42 43 (Resolves (Str ''not json''))
             example_state = Inr st'
        \<and> analysisHistory st' = [(newAnalysis 42 43 example_problem)\<lparr> status := failed \<rparr>]
        \<and> currentAnalysis st' = None
        \<and> console_errors st' = [(''Analysis failed:'', SyntaxError ''not json'')]
        \<and> alerts st' = [''Analysis failed. Please try again.''])"
proof -
  have a: "json_parse (clean_json ''not json'') = None" by code_simp
  have b: "\<not> too_short (currentProblem example_state)" by code_simp
  have c: "currentProblem example_state = example_problem"
          "analysisHistory example_state = []" "alerts example_state = []"
          "console_errors example_state = []"
    by (simp_all add: example_state_def initial_state_def)
  have d: "clean_json ''not json'' = ''not json''" by code_simp
  from malformed_response_marks_record_failed[of json_parse "''not json''" example_state
      history_stringify 42 43] a b c d
  show ?thesis by (auto simp: updateById_def)
qed

subsection \<open>C3: persisting and reloading the history\<close>

text \<open>
  Claim C3 says that persisting a sequence of zero or more records and reloading it
  yields the same sequence.  The save effect does not write the empty sequence: on a
  device that holds a stored history, persisting the empty history of the first render
  and reloading yields the stored history, not the empty one.
\<close>

theorem persist_reload_counterexample:
  "analysisHistory rehydration_state = []
 \<and> map_sum id analysisHistory
       (startup history_parse history_stringify
          (localStorage (save_effect history_stringify rehydration_state)))
     = Inr [example_item]"
  by code_simp

text \<open>
  Claim C3, amended: for every non-empty history of well-formed records, the save
  effect followed by a start of the page on the resulting storage yields that history;
  this is proved with the reference codec.  The same holds with any codec that
  reproduces the history (\<open>JSON_stringify\<close> gives a non-empty text that \<open>JSON_parse\<close>
  reads back as the same records): the save effect and the load effect use the same
  slot.
\<close>

theorem persist_reload_roundtrip:
  assumes "analysisHistory st \<noteq> []"
  shows "(list_all well_formed (analysisHistory st) \<longrightarrow>
            (\<exists>st'. startup history_parse history_stringify
                     (localStorage (save_effect history_stringify st)) = Inr st'
                \<and> analysisHistory st' = analysisHistory st))
       \<and> (JSON_stringify (analysisHistory st) \<noteq> []
            \<and> JSON_parse (JSON_stringify (analysisHistory st)) = Some (analysisHistory st) \<longrightarrow>
            (\<exists>st'. startup JSON_parse JSON_stringify
                     (localStorage (save_effect JSON_stringify st)) = Inr st'
                \<and> analysisHistory st' = analysisHistory st))"
proof (intro conjI impI)
  assume "list_all well_formed (analysisHistory st)"
  then have "history_parse (history_stringify (analysisHistory st)) = Some (analysisHistory st)"
    by (rule history_parse_stringify)
  then show "\<exists>st'. startup history_parse history_stringify
                     (localStorage (save_effect history_stringify st)) = Inr st'
                \<and> analysisHistory st' = analysisHistory st"
    using persist_reload_any_codec[of st history_stringify history_parse] assms
      history_stringify_nonempty by blast
next
  assume "JSON_stringify (analysisHistory st) \<noteq> []
            \<and> JSON_parse (JSON_stringify (analysisHistory st)) = Some (analysisHistory st)"
  then show "\<exists>st'. startup JSON_parse JSON_stringify
                     (localStorage (save_effect JSON_stringify st)) = Inr st'
                \<and> analysisHistory st' = analysisHistory st"
    using persist_reload_any_codec[of st JSON_stringify JSON_parse] assms by blast
qed

text \<open>The amended claim at the history of \<open>analysed_state\<close>.\<close>

theorem persist_reload_witness:
  "analysisHistory analysed_state = [example_item]
 \<and> list_all well_formed (analysisHistory analysed_state)
 \<and> (\<exists>st'. startup history_parse history_stringify
             (localStorage (save_effect history_stringify analysed_state)) = Inr st'
        \<and> analysisHistory st' = [example_item])"
proof -
  have h: "analysisHistory analysed_state = [example_item]" by code_simp
  have a: "analysisHistory analysed_state \<noteq> []" using h by simp
  have w: "list_all well_formed (analysisHistory analysed_state)"
    unfolding h by code_simp
  from persist_reload_roundtrip[OF a, of history_stringify history_parse] h w
  show ?thesis by simp
qed

subsection \<open>C4: the status invariant\<close>

text \<open>
  Claim C4 says that every reachable record satisfies the status invariant, and that a
  record created \<open>in_progress\<close> is resolved by the operation that created it.  The save
  effect stores the \<open>in_progress\<close> record while the gateway call is awaited: a page
  that is closed then and mounted again holds that record, \<open>in_progress\<close>, with no call
  running, and nothing in the page resolves it.  And the identifier of a record is the
  reading of the clock: a second submission that reads the clock value of an earlier,
  completed one, and fails, sets both records to \<open>failed\<close>, and the earlier one keeps
  its result.
\<close>

theorem pending_record_survives_reload:
  "map_sum id (map status \<circ> analysisHistory)
     (startup history_parse history_stringify
        (localStorage (submit history_stringify 42 43 example_state)))
   = Inr [in_progress]
 \<and> map_sum id isAnalyzing
     (startup history_parse history_stringify
        (localStorage (submit history_stringify 42 43 example_state)))
   = Inr False
 \<and> map_sum id (map status \<circ> analysisHistory)
     (handleAnalyze json_parse history_stringify 42 44 (Rejects (Rejected ''network down''))
        analysed_state)
   = Inr [failed, failed]
 \<and> map_sum id (map result \<circ> analysisHistory)
     (handleAnalyze json_parse history_stringify 42 44 (Rejects (Rejected ''network down''))
        analysed_state)
   = Inr [None, Some example_result]"
  by code_simp

text \<open>
  Claim C4, amended.  In every reachable state (see \<open>reachable\<close>: the identifier of a
  submission is new, and a stored history is read back as written), a \<open>completed\<close>
  record has a result, which is neither \<^verbatim>\<open>undefined\<close> nor \<^verbatim>\<open>null\<close>, and its confidence is
  the confidence read of that result; a \<open>failed\<close> record has no result, and neither
  has an \<open>in_progress\<close> one.  A call of \<^verbatim>\<open>handleAnalyze\<close> that passes the length gate
  and runs to its end resolves the record it has created: it returns with that record
  at the head of the unchanged history; the record is \<open>completed\<close>, with the
  normalised response as its result and the confidence read of it, when the gateway
  has resolved, the response has been normalised and the confidence has been read, and
  it is \<open>failed\<close>, without a result, in every other case.
\<close>

theorem status_invariant:
  assumes "reachable load_parse JSON_parse JSON_stringify st"
  shows "(\<forall>item\<in>set (analysisHistory st).
            (status item = completed \<longrightarrow>
               (\<exists>r. result item = Some r \<and> r \<noteq> Undefined \<and> r \<noteq> Null
                  \<and> read_confidence r = Inr (confidence item)))
          \<and> (status item = failed \<longrightarrow> result item = None)
          \<and> (status item = in_progress \<longrightarrow> result item = None))
       \<and> (\<not> too_short (currentProblem st) \<longrightarrow>
          string_of_int now1 \<notin> id' ` set (analysisHistory st) \<longrightarrow>
            (\<exists>st'. handleAnalyze JSON_parse JSON_stringify now1 now2 reply st = Inr st'
              \<and> reachable load_parse JSON_parse JSON_stringify st'
              \<and> status (hd (analysisHistory st')) \<noteq> in_progress
              \<and> analysisHistory st' =
                  (case reply of
                     Rejects e \<Rightarrow> (newAnalysis now1 now2 (currentProblem st))\<lparr> status := failed \<rparr>
                   | Resolves response \<Rightarrow>
                       (case parse_response JSON_parse response of
                          Inl e \<Rightarrow>
                            (newAnalysis now1 now2 (currentProblem st))\<lparr> status := failed \<rparr>
                        | Inr r \<Rightarrow>
                            (case read_confidence r of
                               Inl e \<Rightarrow>
                                 (newAnalysis now1 now2 (currentProblem st))
                                   \<lparr> status := failed \<rparr>
                             | Inr c \<Rightarrow>
                                 (newAnalysis now1 now2 (currentProblem st))
                                   \<lparr> result := Some r, confidence := c,
                                     status := completed \<rparr>)))
                  # analysisHistory st))"
proof (intro conjI impI ballI)
  fix item assume i: "item \<in> set (analysisHistory st)"
  from reachable_inv[OF assms] i have ri: "record_inv item"
    by (simp add: page_inv_def list_all_iff)
  { assume "status item = completed"
    then obtain r where r: "result item = Some r" "read_confidence r = Inr (confidence item)"
      using ri by (auto simp: record_inv_def)
    from read_confidence_defined[OF r(2)] r
    show "\<exists>r. result item = Some r \<and> r \<noteq> Undefined \<and> r \<noteq> Null
            \<and> read_confidence r = Inr (confidence item)" by blast }
  { assume "status item = failed"
    then show "result item = None" using ri by (simp add: record_inv_def) }
  { assume "status item = in_progress"
    then show "result item = None" using ri by (simp add: record_inv_def) }
next
  assume t: "\<not> too_short (currentProblem st)"
    and f: "string_of_int now1 \<notin> id' ` set (analysisHistory st)"
  let ?p = "case try_block JSON_parse reply of
              Inr (r, c) \<Rightarrow> completed_patch r c | Inl e \<Rightarrow> failed_patch"
  from handleAnalyze_head[OF t, of JSON_parse JSON_stringify now1 now2 reply]
  obtain st' where st': "handleAnalyze JSON_parse JSON_stringify now1 now2 reply st = Inr st'"
    "analysisHistory st' = merge ?p (newAnalysis now1 now2 (currentProblem st))
       # updateById (string_of_int now1) ?p (analysisHistory st)"
    by blast
  have h: "analysisHistory st' =
             merge ?p (newAnalysis now1 now2 (currentProblem st)) # analysisHistory st"
    using st'(2) updateById_absent[OF f] by simp
  have r: "reachable load_parse JSON_parse JSON_stringify st'"
    using assms t f st'(1) by (rule handleAnalyze_reachable)
  have s: "status (hd (analysisHistory st')) \<noteq> in_progress"
    unfolding h list.sel by (rule status_patched)
  show "\<exists>st'. handleAnalyze JSON_parse JSON_stringify now1 now2 reply st = Inr st'
              \<and> reachable load_parse JSON_parse JSON_stringify st'
              \<and> status (hd (analysisHistory st')) \<noteq> in_progress
              \<and> analysisHistory st' =
                  (case reply of
                     Rejects e \<Rightarrow> (newAnalysis now1 now2 (currentProblem st))\<lparr> status := failed \<rparr>
                   | Resolves response \<Rightarrow>
                       (case parse_response JSON_parse response of
                          Inl e \<Rightarrow>
                            (newAnalysis now1 now2 (currentProblem st))\<lparr> status := failed \<rparr>
                        | Inr r \<Rightarrow>
                            (case read_confidence r of
                               Inl e \<Rightarrow>
                                 (newAnalysis now1 now2 (currentProblem st))
                                   \<lparr> status := failed \<rparr>
                             | Inr c \<Rightarrow>
                                 (newAnalysis now1 now2 (currentProblem st))
                                   \<lparr> result := Some r, confidence := c,
                                     status := completed \<rparr>)))
                  # analysisHistory st"
    unfolding resolved_record using st'(1) r s h by blast
qed

text \<open>
  The amended claim at the page that has completed one analysis and has been mounted
  again; the second submission reads the clock at 44.
\<close>

theorem status_invariant_witness:
  "reachable history_parse json_parse history_stringify reloaded_state
 \<and> analysisHistory reloaded_state = [example_item]
 \<and> status example_item = completed
 \<and> result example_item = Some example_result
 \<and> read_confidence example_result = Inr (confidence example_item)
 \<and> (\<exists>st'. handleAnalyze json_parse history_stringify 44 45 example_reply reloaded_state = Inr st'
        \<and> analysisHistory st' =
            [\<lparr> id' = ''44'', problem = example_problem, timestamp = 45,
               confidence = Num 72, status = completed, result = Some example_result,
               topic = Some ''Employee'' \<rparr>,
             example_item])"
proof -
  have m: "reachable history_parse json_parse history_stringify (initial_state Map.empty)"
  proof (rule reachable.mount)
    show "(Map.empty :: string \<rightharpoonup> string) history_key = None
        \<or> (\<exists>blob. (Map.empty :: string \<rightharpoonup> string) history_key = Some blob
               \<and> history_parse blob = None)" by simp
    show "startup history_parse history_stringify Map.empty = Inr (initial_state Map.empty)"
      by (simp add: startup_def load_effect_def save_effect_def initial_state_def)
  qed
  have e: "reachable history_parse json_parse history_stringify example_state"
    unfolding example_state_def using m by (rule reachable.edit)
  have t: "\<not> too_short (currentProblem example_state)" by code_simp
  have f: "string_of_int 42 \<notin> id' ` set (analysisHistory example_state)"
    by (simp add: example_state_def initial_state_def)
  obtain st1 where st1:
    "handleAnalyze json_parse history_stringify 42 43 example_reply example_state = Inr st1"
    using handleAnalyze_returns by blast
  then have a1: "analysed_state = st1" by (simp add: analysed_state_def)
  have a: "reachable history_parse json_parse history_stringify analysed_state"
    unfolding a1 using e t f st1 by (rule handleAnalyze_reachable)
  have h: "analysisHistory analysed_state = [example_item]" by code_simp
  have w: "list_all well_formed [example_item]" by code_simp
  have c: "analysisHistory analysed_state \<noteq> [] \<longrightarrow>
             history_stringify (analysisHistory analysed_state) \<noteq> []
             \<and> history_parse (history_stringify (analysisHistory analysed_state))
                 = Some (analysisHistory analysed_state)"
    unfolding h using history_parse_stringify[OF w] history_stringify_nonempty by simp
  obtain st2 where st2:
    "startup history_parse history_stringify (localStorage analysed_state) = Inr st2"
    using startup_returns by blast
  have "reachable history_parse json_parse history_stringify st2"
    using a c st2 by (rule reachable.reload)
  then have "reachable history_parse json_parse history_stringify
               (st2\<lparr> currentProblem := example_problem \<rparr>)" by (rule reachable.edit)
  then have r: "reachable history_parse json_parse history_stringify reloaded_state"
    using st2 by (simp add: reloaded_state_def)
  have rh: "analysisHistory reloaded_state = [example_item]" by code_simp
  have rp: "currentProblem reloaded_state = example_problem"
    by (simp add: reloaded_state_def)
  have rt: "\<not> too_short (currentProblem reloaded_state)" unfolding rp by code_simp
  have rf: "string_of_int 44 \<notin> id' ` set (analysisHistory reloaded_state)"
    unfolding rh by code_simp
  have i: "status example_item = completed" "result example_item = Some example_result"
    "confidence example_item = Num 72"
    by (simp_all add: example_item_def)
  have pr: "parse_response json_parse (Str (fenced ''json'' example_doc)) = Inr example_result"
    by code_simp
  have rc: "read_confidence example_result = Inr (Num 72)" by code_simp
  have n: "newAnalysis 44 45 example_problem =
             \<lparr> id' = ''44'', problem = example_problem, timestamp = 45,
               confidence = Num 0, status = in_progress, result = None,
               topic = Some ''Employee'' \<rparr>"
    by code_simp
  from status_invariant[OF r, of 44 45 example_reply] rt rf
  obtain st' where st':
    "handleAnalyze json_parse history_stringify 44 45 example_reply reloaded_state = Inr st'"
    "analysisHistory st' =
       (case example_reply of
          Rejects e \<Rightarrow> (newAnalysis 44 45 (currentProblem reloaded_state))\<lparr> status := failed \<rparr>
        | Resolves response \<Rightarrow>
            (case parse_response json_parse response of
               Inl e \<Rightarrow> (newAnalysis 44 45 (currentProblem reloaded_state))\<lparr> status := failed \<rparr>
             | Inr r \<Rightarrow>
                 (case read_confidence r of
                    Inl e \<Rightarrow>
                      (newAnalysis 44 45 (currentProblem reloaded_state))\<lparr> status := failed \<rparr>
                  | Inr c \<Rightarrow>
                      (newAnalysis 44 45 (currentProblem reloaded_state))
                        \<lparr> result := Some r, confidence := c, status := completed \<rparr>)))
       # analysisHistory reloaded_state"
    by blast
  have "analysisHistory st' =
          [\<lparr> id' = ''44'', problem = example_problem, timestamp = 45,
             confidence = Num 72, status = completed, result = Some example_result,
             topic = Some ''Employee'' \<rparr>,
           example_item]"
    unfolding st'(2) rp rh example_reply_def by (simp add: pr rc n)
  with st'(1) r rh i rc show ?thesis by simp
qed

subsection \<open>C5 and C6: append and update by id\<close>

text \<open>
  Claim C5: appending a record whose id is not in the history and then updating by
  that id yields, at the head and above the unchanged history, the appended record
  with the properties of the patch written over its own and its other properties as
  they were; it is the one record with that id.  For the two patches of
  \<^verbatim>\<open>handleAnalyze\<close>: the result, the confidence and the status \<open>completed\<close> are written
  over the record; the status \<open>failed\<close> alone is.
\<close>

theorem append_then_update:
  assumes "id' r \<notin> id' ` set h"
  shows "updateById (id' r) p (append_record r h) =
           r\<lparr> result := (case patch_result p of Some v \<Rightarrow> Some v | None \<Rightarrow> result r),
              confidence := (case patch_confidence p of Some c \<Rightarrow> c | None \<Rightarrow> confidence r),
              status := (case patch_status p of Some s \<Rightarrow> s | None \<Rightarrow> status r) \<rparr> # h
       \<and> updateById (id' r) (completed_patch parsedResult conf) (append_record r h) =
           r\<lparr> result := Some parsedResult, confidence := conf, status := completed \<rparr> # h
       \<and> updateById (id' r) failed_patch (append_record r h) = r\<lparr> status := failed \<rparr> # h
       \<and> length (filter (\<lambda>x. id' x = id' r) (updateById (id' r) p (append_record r h))) = 1"
proof -
  have 1: "updateById (id' r) q (append_record r h) = merge q r # h" for q
    using assms by (simp add: append_record_def updateById_Cons_same updateById_absent)
  have "filter (\<lambda>x. id' x = id' r) h = []"
    using assms by (force simp: filter_empty_conv image_iff)
  then have 2: "length (filter (\<lambda>x. id' x = id' r) (updateById (id' r) p (append_record r h))) = 1"
    by (simp add: 1)
  show ?thesis
    unfolding 1 using 2[unfolded 1]
    by (simp add: merge_def completed_patch_def failed_patch_def)
qed

text \<open>
  Claim C5 at a new record for the id \<^verbatim>\<open>50\<close>, appended to \<open>[example_item]\<close> and updated
  with the patch of a completed analysis.
\<close>

theorem append_then_update_witness:
  "id' (newAnalysis 50 51 ''what drives churn?'') \<notin> id' ` set [example_item]
 \<and> updateById ''50'' (completed_patch example_result (Num 72))
       (append_record (newAnalysis 50 51 ''what drives churn?'') [example_item])
     = [\<lparr> id' = ''50'', problem = ''what drives churn?'', timestamp = 51,
          confidence = Num 72, status = completed, result = Some example_result,
          topic = Some ''General'' \<rparr>,
        example_item]"
proof -
  have i: "id' (newAnalysis 50 51 ''what drives churn?'') = ''50''" by code_simp
  have a: "id' (newAnalysis 50 51 ''what drives churn?'') \<notin> id' ` set [example_item]"
    unfolding i by (simp add: example_item_def)
  have n: "newAnalysis 50 51 ''what drives churn?'' =
             \<lparr> id' = ''50'', problem = ''what drives churn?'', timestamp = 51,
               confidence = Num 0, status = in_progress, result = None,
               topic = Some ''General'' \<rparr>"
    by code_simp
  have "updateById (id' (newAnalysis 50 51 ''what drives churn?''))
          (completed_patch example_result (Num 72))
          (append_record (newAnalysis 50 51 ''what drives churn?'') [example_item])
        = (newAnalysis 50 51 ''what drives churn?'')
            \<lparr> result := Some example_result, confidence := Num 72, status := completed \<rparr>
          # [example_item]"
    using append_then_update[OF a, of failed_patch example_result "Num 72"] by blast
  then show ?thesis using a unfolding i n by simp
qed

text \<open>
  Claim C6: updating by an id that no record has leaves the history as it is (its
  length, its order and its elements).
\<close>

theorem update_unknown_id:
  assumes "analysisId \<notin> id' ` set h"
  shows "updateById analysisId p h = h"
  using assms by (rule updateById_absent)

text \<open>Claim C6 at the id \<^verbatim>\<open>7\<close> and the history \<open>[example_item]\<close>.\<close>

theorem update_unknown_id_witness:
  "''7'' \<notin> id' ` set [example_item]
 \<and> updateById ''7'' (completed_patch Null (Num 5)) [example_item] = [example_item]"
proof -
  have a: "''7'' \<notin> id' ` set [example_item]" by (simp add: example_item_def)
  from update_unknown_id[OF a, of "completed_patch Null (Num 5)"] a show ?thesis by simp
qed

subsection \<open>C7: the gateway rejects\<close>

text \<open>
  Claim C7 says that the confidence of the record remains unset when the gateway call
  rejects.  A record has no unset confidence: the property is \<^verbatim>\<open>confidence: number\<close>,
  \<^verbatim>\<open>handleAnalyze\<close> creates the record with \<^verbatim>\<open>confidence: 0\<close>, and the \<^verbatim>\<open>catch\<close> block
  leaves it.  After a rejected call the confidence of the record is the number 0, the
  confidence that a completed analysis has when the gateway reports 0.
\<close>

theorem rejected_confidence_is_zero:
  "map_sum id (map confidence \<circ> analysisHistory)
     (handleAnalyze json_parse history_stringify 42 43 (Rejects (Rejected ''network down''))
        example_state)
   = Inr [Num 0]
 \<and> map_sum id (map status \<circ> analysisHistory)
     (handleAnalyze json_parse history_stringify 42 43 (Rejects (Rejected ''network down''))
        example_state)
   = Inr [failed]
 \<and> read_confidence (Obj [(''uncertainty_assessment'', Obj [(''overall_confidence'', Num 0)])])
   = Inr (Num 0)
 \<and> Num 0 \<noteq> Undefined"
  by code_simp

text \<open>
  Claim C7, amended: when the gateway call rejects, \<^verbatim>\<open>handleAnalyze\<close> returns normally;
  the record it has created is at the head of the history with the status \<open>failed\<close>; its
  confidence is the value it was created with, the number 0; the rejection is logged.
\<close>

theorem gateway_rejection_marks_record_failed:
  assumes "\<not> too_short (currentProblem st)"
  shows "\<exists>st'. handleAnalyze JSON_parse JSON_stringify now1 now2 (Rejects e) st = Inr st'
     \<and> analysisHistory st' =
         (newAnalysis now1 now2 (currentProblem st))\<lparr> status := failed \<rparr>
         # updateById (string_of_int now1) failed_patch (analysisHistory st)
     \<and> status (hd (analysisHistory st')) = failed
     \<and> confidence (hd (analysisHistory st')) = confidence (newAnalysis now1 now2 (currentProblem st))
     \<and> confidence (hd (analysisHistory st')) = Num 0
     \<and> console_errors st' = console_errors st @ [(''Analysis failed:'', e)]"
proof -
  have "try_block JSON_parse (Rejects e) = Inl e" by (simp add: try_block_def)
  from handleAnalyze_failure[OF assms this, of JSON_stringify now1 now2]
  show ?thesis by (auto simp: merge_failed_newAnalysis)
qed

text \<open>The amended claim at \<open>example_state\<close> and a rejected call.\<close>

theorem gateway_rejection_witness:
  "\<not> too_short (currentProblem example_state)
 \<and> (\<exists>st'. handleAnalyze json_parse history_stringify 42 43 (Rejects (Rejected ''network down''))
             example_state = Inr st'
        \<and> status (hd (analysisHistory st')) = failed
        \<and> confidence (hd (analysisHistory st')) = Num 0)"
proof -
  have b: "\<not> too_short (currentProblem example_state)" by code_simp
  from gateway_rejection_marks_record_failed[OF b, of json_parse history_stringify 42 43
      "Rejected ''network down''"] b
  show ?thesis by blast
qed

subsection \<open>C8: starting on a missing or unreadable slot\<close>

text \<open>
  Claim C8: when the slot is missing, or holds a text that \<open>JSON_parse\<close> refuses, the
  page starts normally with the empty history (and leaves the storage as it is).
\<close>

theorem startup_survives_bad_storage:
  assumes "store history_key = None
         \<or> (\<exists>blob. store history_key = Some blob \<and> JSON_parse blob = None)"
  shows "\<exists>st. startup JSON_parse JSON_stringify store = Inr st
            \<and> analysisHistory st = [] \<and> localStorage st = store"
  using assms
  by (auto simp: startup_def load_effect_def initial_state_def save_effect_def Let_def)

text \<open>Claim C8 at a slot holding the truncated text \<^verbatim>\<open>[{"id":\<close>, and at an empty storage.\<close>

theorem startup_survives_bad_storage_witness:
  "history_parse ''[{\"id\":'' = None
 \<and> (\<exists>st. startup history_parse history_stringify [history_key \<mapsto> ''[{\"id\":''] = Inr st
        \<and> analysisHistory st = [])
 \<and> (\<exists>st. startup history_parse history_stringify Map.empty = Inr st
        \<and> analysisHistory st = [])"
proof -
  have a: "history_parse ''[{\"id\":'' = None" by code_simp
  have b: "[history_key \<mapsto> ''[{\"id\":''] history_key = None
         \<or> (\<exists>blob. [history_key \<mapsto> ''[{\"id\":''] history_key = Some blob
                \<and> history_parse blob = None)"
    using a by simp
  have c: "(Map.empty :: string \<rightharpoonup> string) history_key = None
         \<or> (\<exists>blob. (Map.empty :: string \<rightharpoonup> string) history_key = Some blob
                \<and> history_parse blob = None)"
    by simp
  from startup_survives_bad_storage[of "[history_key \<mapsto> ''[{\"id\":'']" history_parse
      history_stringify]
    startup_survives_bad_storage[of Map.empty history_parse history_stringify] a b c
  show ?thesis by blast
qed

subsection \<open>C9: the length gate\<close>

text \<open>
  Claim C9 says that a problem text below the minimum length, any text of five
  characters in particular, is rejected before a gateway call is made; it names the
  gate of \<^verbatim>\<open>handleAnalyze\<close> and the gate of \<^verbatim>\<open>runAnalysis\<close>.  The gate of \<^verbatim>\<open>runAnalysis\<close>
  tests only that the trimmed text is not empty: on the problem \<^verbatim>\<open>hello\<close> it calls the
  three agents and stores the analysis.
\<close>

theorem short_problem_counterexample:
  "length (problemInput example_forge_state) = 5
 \<and> map_sum id forge_gateway_calls
       (runAnalysis forge_stringify 42 ''2025-01-27T00:00:00.000Z''
          example_agent_reply example_agent_reply example_agent_reply example_forge_state)
     = Inr [(''Analyze the causal relationships in this problem: hello'',
             AGENT_IDS_causalAnalysis),
            (''Validate the reasoning in this problem: hello'',
             AGENT_IDS_commonSenseValidator),
            (''Quantify the uncertainty in this analysis: hello'',
             AGENT_IDS_uncertaintyQuantifier)]
 \<and> map_sum id (map h_problem) (map_sum id history
       (runAnalysis forge_stringify 42 ''2025-01-27T00:00:00.000Z''
          example_agent_reply example_agent_reply example_agent_reply example_forge_state))
     = Inr [''hello'']"
  by code_simp

text \<open>
  Claim C9, amended: \<^verbatim>\<open>handleAnalyze\<close> rejects every problem text shorter than 10 code
  units, and every blank one: it shows the alert and changes nothing else, so no record
  is created and no gateway call is made.  \<^verbatim>\<open>runAnalysis\<close> has no minimum length: it returns at once, the
  state unchanged, when the trimmed text is empty, and calls the gateway otherwise.
\<close>

theorem length_gate:
  "(length (currentProblem st) < 10 \<or> trim (currentProblem st) = [] \<longrightarrow>
      handleAnalyze JSON_parse JSON_stringify now1 now2 reply st =
        Inr (st\<lparr> alerts := alerts st
                    @ [''Please enter a problem statement (minimum 10 characters)''] \<rparr>))
 \<and> (trim (problemInput fs) = [] \<longrightarrow>
      runAnalysis JSON_stringify' now iso_date r1 r2 r3 fs = Inr fs)
 \<and> (trim (problemInput fs) \<noteq> [] \<longrightarrow>
      (\<exists>fs' more. runAnalysis JSON_stringify' now iso_date r1 r2 r3 fs = Inr fs'
         \<and> forge_gateway_calls fs' = forge_gateway_calls fs
             @ (''Analyze the causal relationships in this problem: '' @ problemInput fs,
                AGENT_IDS_causalAnalysis) # more))"
proof (intro conjI impI)
  assume "length (currentProblem st) < 10 \<or> trim (currentProblem st) = []"
  then have "too_short (currentProblem st)" by (auto simp: too_short_def)
  then show "handleAnalyze JSON_parse JSON_stringify now1 now2 reply st =
        Inr (st\<lparr> alerts := alerts st
                    @ [''Please enter a problem statement (minimum 10 characters)''] \<rparr>)"
    by (rule handleAnalyze_rejected)
next
  assume "trim (problemInput fs) = []"
  then show "runAnalysis JSON_stringify' now iso_date r1 r2 r3 fs = Inr fs"
    by (simp add: runAnalysis_def)
next
  assume "trim (problemInput fs) \<noteq> []"
  then show "\<exists>fs' more. runAnalysis JSON_stringify' now iso_date r1 r2 r3 fs = Inr fs'
         \<and> forge_gateway_calls fs' = forge_gateway_calls fs
             @ (''Analyze the causal relationships in this problem: '' @ problemInput fs,
                AGENT_IDS_causalAnalysis) # more"
    by (rule runAnalysis_calls)
qed

text \<open>The amended claim at the problem \<^verbatim>\<open>hello\<close> in \<^verbatim>\<open>handleAnalyze\<close>.\<close>

theorem length_gate_witness:
  "length (currentProblem short_state) < 10
 \<and> handleAnalyze json_parse history_stringify 42 43 example_reply short_state =
     Inr (short_state\<lparr> alerts := [''Please enter a problem statement (minimum 10 characters)''] \<rparr>)
 \<and> gateway_calls (short_state\<lparr> alerts := [''Please enter a problem statement (minimum 10 characters)''] \<rparr>) = []"
proof -
  have a: "length (currentProblem short_state) < 10"
    by (simp add: short_state_def)
  have b: "alerts short_state = []" "gateway_calls short_state = []"
    by (simp_all add: short_state_def initial_state_def)
  from length_gate[of short_state json_parse history_stringify 42 43 example_reply] a b
  show ?thesis by simp
qed

subsection \<open>C10: the save effect and the empty history\<close>

text \<open>
  Claim C10: the save effect leaves the state, and so the stored slot, as it is when
  the history is empty, and writes the serialised history to the slot when it is not;
  after a start of the page on any storage, the storage is the one the page started
  on, or that one with the slot overwritten by a non-empty history.
\<close>

theorem save_effect_skips_empty_history:
  "(analysisHistory st = [] \<longrightarrow> save_effect JSON_stringify st = st)
 \<and> (analysisHistory st \<noteq> [] \<longrightarrow>
      save_effect JSON_stringify st =
        st\<lparr> localStorage :=
              (localStorage st)(history_key \<mapsto> JSON_stringify (analysisHistory st)) \<rparr>)
 \<and> (\<exists>st'. startup JSON_parse JSON_stringify store = Inr st'
      \<and> (if analysisHistory st' = [] then localStorage st' = store
          else localStorage st' = store(history_key \<mapsto> JSON_stringify (analysisHistory st'))))"
  by (auto simp: startup_def load_effect_def initial_state_def save_effect_def Let_def
      setAnalysisHistory_def split: option.splits)

text \<open>Claim C10 at the first render on a device that holds a stored history.\<close>

theorem save_effect_skips_empty_history_witness:
  "analysisHistory rehydration_state = []
 \<and> save_effect history_stringify rehydration_state = rehydration_state
 \<and> localStorage (save_effect history_stringify rehydration_state) history_key
     = Some (history_stringify [example_item])"
proof -
  have a: "analysisHistory rehydration_state = []"
    by (simp add: rehydration_state_def initial_state_def)
  from save_effect_skips_empty_history[of rehydration_state history_stringify history_parse Map.empty] a
  have "save_effect history_stringify rehydration_state = rehydration_state" by blast
  then show ?thesis using a by (simp add: rehydration_state_def initial_state_def)
qed

subsection \<open>The scenario of the specification\<close>

text \<open>
  The problem of the specification's scenario is submitted and the gateway answers a
  fenced JSON block whose overall confidence is 72: the history is the one record,
  \<open>completed\<close>, with the confidence 72 and the parsed result.
\<close>

theorem scenario_fenced_reply_completes:
  "map_sum id analysisHistory
     (handleAnalyze json_parse history_stringify 42 43 example_reply example_state)
   = Inr [example_item]"
  by code_simp

end
